theory Spec2Isabelle
  imports Main "HOL-Library.AList"
begin

section \<open>check-packages.js: auditing installed package versions against a watch-list\<close>

text \<open>
  A shallow embedding of \<^verbatim>\<open>src/check-packages.js\<close>. A JavaScript string is held
  as the \<^typ>\<open>string\<close> of its UTF-8 bytes, which is how the files the program reads
  and writes hold it; the characters the program looks for (\<open>@\<close>, \<open>/\<close>, the range
  operators, the line feed) are single bytes that occur nowhere inside the encoding of
  another character, so splitting and searching on the bytes cuts the text where the
  program cuts it. A JavaScript object used as a dictionary is an association list of its
  own properties in \<^verbatim>\<open>Object.entries\<close> order; \<^verbatim>\<open>null\<close> and \<^verbatim>\<open>undefined\<close>
  are \<^term>\<open>None\<close>; a thrown exception is the \<^term>\<open>Inl\<close> of a sum; what the code
  prints is a list of console lines returned next to the result.

  The parsed manifest and lockfile have the shapes npm writes: a dependency category
  is an object from names to strings, a lockfile entry is an object whose
  \<^verbatim>\<open>version\<close>, when present, is a string. A file that cannot be read or parsed is
  a case of its own.
\<close>

subsection \<open>String primitives of the JavaScript runtime\<close>

definition startsWith :: "string \<Rightarrow> string \<Rightarrow> bool" where
  "startsWith s p = (take (length p) s = p)"

text \<open>
  \<^verbatim>\<open>String.prototype.trim\<close> removes white space and line terminators at both
  ends. These are the code points U+0009 to U+000D, U+0020, U+00A0, U+1680, U+2000 to
  U+200A, U+2028, U+2029, U+202F, U+205F, U+3000 and U+FEFF (the byte order mark);
  \<open>white_space\<close> lists their UTF-8 encodings. In well-formed UTF-8 an encoding found
  at the start or at the end of the text is that code point, so removing encodings
  from the bytes removes exactly the code points.
\<close>

definition white_space :: "string list" where
  "white_space =
     [[CHR 0x09], [CHR 0x0A], [CHR 0x0B], [CHR 0x0C], [CHR 0x0D], [CHR 0x20],
      [CHR 0xC2, CHR 0xA0], [CHR 0xE1, CHR 0x9A, CHR 0x80],
      [CHR 0xE2, CHR 0x80, CHR 0x80], [CHR 0xE2, CHR 0x80, CHR 0x81],
      [CHR 0xE2, CHR 0x80, CHR 0x82], [CHR 0xE2, CHR 0x80, CHR 0x83],
      [CHR 0xE2, CHR 0x80, CHR 0x84], [CHR 0xE2, CHR 0x80, CHR 0x85],
      [CHR 0xE2, CHR 0x80, CHR 0x86], [CHR 0xE2, CHR 0x80, CHR 0x87],
      [CHR 0xE2, CHR 0x80, CHR 0x88], [CHR 0xE2, CHR 0x80, CHR 0x89],
      [CHR 0xE2, CHR 0x80, CHR 0x8A], [CHR 0xE2, CHR 0x80, CHR 0xA8],
      [CHR 0xE2, CHR 0x80, CHR 0xA9], [CHR 0xE2, CHR 0x80, CHR 0xAF],
      [CHR 0xE2, CHR 0x81, CHR 0x9F], [CHR 0xE3, CHR 0x80, CHR 0x80],
      [CHR 0xEF, CHR 0xBB, CHR 0xBF]]"

text \<open>Removes, as long as there is one, a leading occurrence of one of the patterns.\<close>

function strip_leading :: "string list \<Rightarrow> string \<Rightarrow> string" where
  "strip_leading pats s =
     (case find (\<lambda>p. p \<noteq> [] \<and> startsWith s p) pats of
        None \<Rightarrow> s
      | Some p \<Rightarrow> strip_leading pats (drop (length p) s))"
  by pat_completeness auto
termination
proof (relation "measure (\<lambda>(pats, s). length s)")
  show "wf (measure (\<lambda>(pats, s). length s))" by simp
next
  fix pats :: "string list" and s p :: string
  assume "find (\<lambda>p. p \<noteq> [] \<and> startsWith s p) pats = Some p"
  then have "p \<noteq> []" and "startsWith s p" by (auto simp: find_Some_iff)
  then have "s \<noteq> []" by (auto simp: startsWith_def)
  with \<open>p \<noteq> []\<close> show "((pats, drop (length p) s), (pats, s)) \<in> measure (\<lambda>(pats, s). length s)"
    by simp
qed

definition trim :: "string \<Rightarrow> string" where
  "trim s = rev (strip_leading (map rev white_space) (rev (strip_leading white_space s)))"

text \<open>\<^verbatim>\<open>s.includes(p)\<close>: \<open>p\<close> occurs in \<open>s\<close> as a contiguous substring.\<close>

fun includes_str :: "string \<Rightarrow> string \<Rightarrow> bool" where
  "includes_str [] p = (p = [])"
| "includes_str (x # xs) p = (startsWith (x # xs) p \<or> includes_str xs p)"

text \<open>\<^verbatim>\<open>s.split(c)\<close> for a one-character separator: one segment more than separators.\<close>

fun split_on :: "char \<Rightarrow> string \<Rightarrow> string list" where
  "split_on c [] = [[]]"
| "split_on c (x # xs) =
     (let r = split_on c xs in if x = c then [] # r else (x # hd r) # tl r)"

text \<open>\<^verbatim>\<open>s.lastIndexOf(c)\<close>: the index of the last occurrence, or \<open>-1\<close>.\<close>

fun lastIndexOf :: "string \<Rightarrow> char \<Rightarrow> int" where
  "lastIndexOf [] c = - 1"
| "lastIndexOf (x # xs) c =
     (let r = lastIndexOf xs c in if r \<noteq> - 1 then r + 1 else if x = c then 0 else - 1)"

text \<open>
  \<^verbatim>\<open>s.substring(i, j)\<close> clamps both indices to the string and swaps them when
  \<open>i > j\<close>; \<^verbatim>\<open>s.substring(i)\<close> runs to the end.
\<close>

definition substring :: "string \<Rightarrow> int \<Rightarrow> int \<Rightarrow> string" where
  "substring s i j =
     (let a = min (nat i) (length s); b = min (nat j) (length s)
      in take (max a b - min a b) (drop (min a b) s))"

definition substring_from :: "string \<Rightarrow> int \<Rightarrow> string" where
  "substring_from s i = drop (nat i) s"

text \<open>\<^verbatim>\<open>lines.join(sep)\<close>.\<close>

fun join :: "string \<Rightarrow> string list \<Rightarrow> string" where
  "join sep [] = []"
| "join sep [x] = x"
| "join sep (x # y # ys) = x @ sep @ join sep (y # ys)"

subsection \<open>Specifier parser: \<^verbatim>\<open>parsePackageLine\<close> (lines 12-43)\<close>

record watch_entry =
  packageName :: string
  version :: "string option"

definition parsePackageLine :: "string \<Rightarrow> watch_entry option" where
  "parsePackageLine raw =
     (let line = trim raw in
      if line = [] then None
      else if startsWith line ''@'' then
        (let parts = split_on CHR ''@'' line in
         if length parts = 2 then Some \<lparr>packageName = line, version = None\<rparr>
         else if length parts = 3 then
           Some \<lparr>packageName = CHR ''@'' # parts ! 1, version = Some (parts ! 2)\<rparr>
         else None)
      else
        (let lastAtIndex = lastIndexOf line CHR ''@'' in
         if lastAtIndex = - 1 then Some \<lparr>packageName = line, version = None\<rparr>
         else Some \<lparr>packageName = substring line 0 lastAtIndex,
                     version = Some (substring_from line (lastAtIndex + 1))\<rparr>))"

text \<open>
  The loop of \<^verbatim>\<open>loadPackageList\<close> (lines 145-150): every line that parses is
  pushed, in order; a line that does not parse is passed over and nothing is printed.
\<close>

fun parse_lines :: "string list \<Rightarrow> watch_entry list" where
  "parse_lines [] = []"
| "parse_lines (l # ls) =
     (case parsePackageLine l of
        None \<Rightarrow> parse_lines ls
      | Some parsed \<Rightarrow> parsed # parse_lines ls)"

subsection \<open>The resolved package map: a plain object \<^verbatim>\<open>{}\<close>\<close>

text \<open>
  \<^verbatim>\<open>packages\<close> is created by \<^verbatim>\<open>const packages = {}\<close> (line 81), so it is an ordinary
  object whose prototype is \<^verbatim>\<open>Object.prototype\<close>. Its own properties are the
  association list; keys are distinct and a key assigned again keeps its place.

  Writing \<^verbatim>\<open>packages[name] = v\<close> with a string \<open>v\<close> creates or overwrites the own
  property \<open>name\<close>, except for the key \<^verbatim>\<open>__proto__\<close>: that assignment reaches the
  setter inherited from \<^verbatim>\<open>Object.prototype\<close>, which ignores a value that is not an
  object, so no own property appears.

  Reading \<^verbatim>\<open>packages[name]\<close> yields the own property when there is one, otherwise
  the member of \<^verbatim>\<open>Object.prototype\<close> of that name (a function, or the prototype
  object itself for \<^verbatim>\<open>__proto__\<close>), otherwise \<^verbatim>\<open>undefined\<close>.
\<close>

type_synonym packages = "(string \<times> string) list"

datatype jsval = JString string | JProto string

definition object_prototype_members :: "string list" where
  "object_prototype_members =
     [''constructor'', ''__defineGetter__'', ''__defineSetter__'', ''hasOwnProperty'',
      ''__lookupGetter__'', ''__lookupSetter__'', ''isPrototypeOf'',
      ''propertyIsEnumerable'', ''toString'', ''valueOf'', ''__proto__'',
      ''toLocaleString'']"

definition set_prop :: "packages \<Rightarrow> string \<Rightarrow> string \<Rightarrow> packages" where
  "set_prop packages name v =
     (if name = ''__proto__'' then packages else AList.update name v packages)"

definition get_prop :: "packages \<Rightarrow> string \<Rightarrow> jsval option" where
  "get_prop packages name =
     (case map_of packages name of
        Some v \<Rightarrow> Some (JString v)
      | None \<Rightarrow>
          if name \<in> set object_prototype_members then Some (JProto name) else None)"

text \<open>JavaScript truthiness of what a property read returns.\<close>

fun truthy :: "jsval option \<Rightarrow> bool" where
  "truthy None = False"
| "truthy (Some (JString s)) = (s \<noteq> [])"
| "truthy (Some (JProto n)) = True"

text \<open>\<^verbatim>\<open>Object.assign(packages, source)\<close>: assigns every entry of the source in order.\<close>

definition object_assign :: "packages \<Rightarrow> (string \<times> string) list \<Rightarrow> packages" where
  "object_assign packages source = fold (\<lambda>(name, v) acc. set_prop acc name v) source packages"

subsection \<open>Lockfile graph collector: \<^verbatim>\<open>collectAllDependencies\<close> (lines 50-65)\<close>

text \<open>\<^verbatim>\<open>v.replace(/^[\^~>=<]+/, '')\<close> (lines 56 and 110).\<close>

definition range_operators :: "char list" where
  "range_operators = ''^~>=<''"

fun strip_range_operators :: "string \<Rightarrow> string" where
  "strip_range_operators [] = []"
| "strip_range_operators (c # cs) =
     (if c \<in> set range_operators then strip_range_operators cs else c # cs)"

text \<open>
  An entry of the nested schema: its \<^verbatim>\<open>version\<close> field and its own
  \<^verbatim>\<open>dependencies\<close> mapping, either of which may be missing.
\<close>

datatype dep_info =
  DepInfo (info_version: "string option") (info_dependencies: "(string \<times> dep_info) list option")

fun collectAllDependencies :: "(string \<times> dep_info) list option \<Rightarrow> packages \<Rightarrow> packages"
  and collect_entries :: "(string \<times> dep_info) list \<Rightarrow> packages \<Rightarrow> packages"
where
  "collectAllDependencies None packages = packages"
| "collectAllDependencies (Some dependencies) packages = collect_entries dependencies packages"
| "collect_entries [] packages = packages"
| "collect_entries ((name, DepInfo v nested) # rest) packages =
     (let recorded =
            (case v of
               None \<Rightarrow> packages
             | Some s \<Rightarrow>
                 if s \<noteq> [] then set_prop packages name (strip_range_operators s) else packages);
          descended =
            (case nested of
               None \<Rightarrow> recorded
             | Some d \<Rightarrow> collectAllDependencies (Some d) recorded)
      in collect_entries rest descended)"

subsection \<open>The flattened-path schema (lines 103-115)\<close>

datatype lock_entry = LockEntry (entry_version: "string option")

text \<open>\<^verbatim>\<open>s.replace(p, '')\<close> with a string pattern: the first occurrence is removed.\<close>

fun remove_first :: "string \<Rightarrow> string \<Rightarrow> string" where
  "remove_first [] p = []"
| "remove_first (x # xs) p =
     (if startsWith (x # xs) p then drop (length p) (x # xs) else x # remove_first xs p)"

definition collect_package_entry :: "string \<times> lock_entry \<Rightarrow> packages \<Rightarrow> packages" where
  "collect_package_entry entry packages =
     (case entry of (packagePath, info) \<Rightarrow>
        if startsWith packagePath ''node_modules/'' then
          (let packageName = remove_first packagePath ''node_modules/'' in
           case entry_version info of
             None \<Rightarrow> packages
           | Some v \<Rightarrow>
               if v \<noteq> [] \<and> \<not> includes_str packageName ''/node_modules/''
               then set_prop packages packageName (strip_range_operators v)
               else packages)
        else packages)"

subsection \<open>Manifest loader: \<^verbatim>\<open>loadProjectPackages\<close> (lines 72-129)\<close>

record package_json =
  dependencies :: "(string \<times> string) list option"
  devDependencies :: "(string \<times> string) list option"
  peerDependencies :: "(string \<times> string) list option"

record package_lock =
  lock_dependencies :: "(string \<times> dep_info) list option"
  lock_packages :: "(string \<times> lock_entry) list option"

text \<open>
  What the run finds at a path: nothing (\<^verbatim>\<open>fs.existsSync\<close> is false), a file
  whose reading or \<^verbatim>\<open>JSON.parse\<close> throws, or the parsed content.
\<close>

datatype 'a file_state = Missing | Unreadable | Content 'a

record filesystem =
  path_join :: "string \<Rightarrow> string \<Rightarrow> string"
  list_file :: "string \<Rightarrow> string file_state"
  manifest_file :: "string \<Rightarrow> package_json file_state"
  lock_file :: "string \<Rightarrow> package_lock file_state"
  writable :: "string \<Rightarrow> bool"

datatype error =
    ListNotFound string
  | ManifestNotFound string
  | LoadFailed string
  | ReadFailed string
  | WriteFailed string

text \<open>The texts the program prints, by call site, and the console method used.\<close>

datatype message =
    MsgUsage
  | MsgUsageExample
  | MsgListPath string
  | MsgProjectPath string
  | MsgOutputPath string
  | MsgBlank
  | MsgListLoaded nat
  | MsgProjectLoaded nat
  | MsgLockLoaded
  | MsgLockFailed
  | MsgLockMissing
  | MsgCompareError jsval string
  | MsgDetected string jsval bool
  | MsgNoPackages
  | MsgWritten string
  | MsgDone nat
  | MsgFailure error

datatype out = Log message | Warn message | Error message

definition load_manifest :: "package_json \<Rightarrow> packages" where
  "load_manifest packageJson =
     fold (\<lambda>depType packages.
             case depType packageJson of
               None \<Rightarrow> packages
             | Some deps \<Rightarrow> object_assign packages deps)
          [dependencies, devDependencies, peerDependencies] []"

definition load_lock :: "package_lock \<Rightarrow> packages \<Rightarrow> packages" where
  "load_lock packageLock packages =
     (let nested =
            (case lock_dependencies packageLock of
               None \<Rightarrow> packages
             | Some d \<Rightarrow> collectAllDependencies (Some d) packages)
      in case lock_packages packageLock of
           None \<Rightarrow> nested
         | Some entries \<Rightarrow> fold collect_package_entry entries nested)"

definition loadProjectPackages :: "filesystem \<Rightarrow> string \<Rightarrow> error + packages \<times> out list" where
  "loadProjectPackages fs projectPath =
     (let packageJsonPath = path_join fs projectPath ''package.json'';
          packageLockPath = path_join fs projectPath ''package-lock.json''
      in case manifest_file fs packageJsonPath of
           Missing \<Rightarrow> Inl (ManifestNotFound packageJsonPath)
         | Unreadable \<Rightarrow> Inl (LoadFailed packageJsonPath)
         | Content packageJson \<Rightarrow>
             (let packages = load_manifest packageJson
              in case lock_file fs packageLockPath of
                   Missing \<Rightarrow> Inr (packages, [Log MsgLockMissing])
                 | Unreadable \<Rightarrow> Inr (packages, [Warn MsgLockFailed])
                 | Content packageLock \<Rightarrow>
                     Inr (load_lock packageLock packages, [Log MsgLockLoaded])))"

subsection \<open>\<^verbatim>\<open>loadPackageList\<close> (lines 136-153)\<close>

definition loadPackageList :: "filesystem \<Rightarrow> string \<Rightarrow> error + watch_entry list" where
  "loadPackageList fs listFilePath =
     (case list_file fs listFilePath of
        Missing \<Rightarrow> Inl (ListNotFound listFilePath)
      | Unreadable \<Rightarrow> Inl (ReadFailed listFilePath)
      | Content content \<Rightarrow> Inr (parse_lines (split_on CHR 0x0A content)))"

subsection \<open>The semver package\<close>

text \<open>
  Modelled from the spec: \<^verbatim>\<open>semver.clean\<close> and \<^verbatim>\<open>semver.lte\<close> belong to the
  third-party package \<^verbatim>\<open>semver\<close>, which is not among the sources. Section 4.4 of
  the specification leaves the cleaning rule to the package and the order to the
  Semantic Versioning specification; the model takes the package's documented
  behaviour for both. Cleaning trims the text, drops a leading run of \<open>=\<close> and
  \<open>v\<close>, trims again, allows one more \<open>v\<close>, and then demands
  \<open>major.minor.patch\<close> with an optional \<open>-prerelease\<close> and an optional
  \<open>+build\<close>; numeric identifiers have no leading zero. A cleaned version is kept in
  parsed form (the package hands back its canonical text, without the build part, and
  \<^verbatim>\<open>lte\<close> parses it again). Numeric identifiers are compared as natural numbers;
  the package's limits on length and magnitude are not modelled. Handing
  \<^verbatim>\<open>clean\<close> a value that is not a string throws a \<^verbatim>\<open>TypeError\<close>.
\<close>

datatype ident = Numeric nat | Alphanumeric string

record semver =
  major :: nat
  minor :: nat
  patch :: nat
  prerelease :: "ident list"

datatype js_exception = TypeError

definition is_digit :: "char \<Rightarrow> bool" where
  "is_digit c = (c \<in> set ''0123456789'')"

definition is_identifier_char :: "char \<Rightarrow> bool" where
  "is_identifier_char c =
     (c \<in> set ''0123456789abcdefghijklmnopqrstuvwxyzABCDEFGHIJKLMNOPQRSTUVWXYZ-'')"

definition numeric_identifier :: "string \<Rightarrow> bool" where
  "numeric_identifier s = (s \<noteq> [] \<and> list_all is_digit s \<and> (s = ''0'' \<or> hd s \<noteq> CHR ''0''))"

definition prerelease_identifier :: "string \<Rightarrow> bool" where
  "prerelease_identifier s =
     (s \<noteq> [] \<and> list_all is_identifier_char s \<and>
      (if list_all is_digit s then numeric_identifier s else True))"

definition build_identifier :: "string \<Rightarrow> bool" where
  "build_identifier s = (s \<noteq> [] \<and> list_all is_identifier_char s)"

definition decimal :: "string \<Rightarrow> nat" where
  "decimal s = foldl (\<lambda>n c. 10 * n + (of_char c - 48)) 0 s"

definition to_identifier :: "string \<Rightarrow> ident" where
  "to_identifier s = (if list_all is_digit s then Numeric (decimal s) else Alphanumeric s)"

text \<open>The text before the first \<open>c\<close>, and the text after it when there is one.\<close>

definition break_at :: "char \<Rightarrow> string \<Rightarrow> string \<times> string option" where
  "break_at c s =
     (takeWhile (\<lambda>x. x \<noteq> c) s,
      if c \<in> set s then Some (tl (dropWhile (\<lambda>x. x \<noteq> c) s)) else None)"

text \<open>
  Modelled from the spec: the package's strict version grammar (what its parser
  accepts, and the numbers and pre-release identifiers it reads off).
\<close>

definition semver_parse :: "string \<Rightarrow> semver option" where
  "semver_parse s =
     (let t = trim s;
          body = (case t of [] \<Rightarrow> t | x # r \<Rightarrow> if x = CHR ''v'' then r else t);
          (core, build) = break_at CHR ''+'' body;
          (main, pre) = break_at CHR ''-'' core;
          nums = split_on CHR ''.'' main;
          ids = (case pre of None \<Rightarrow> [] | Some p \<Rightarrow> split_on CHR ''.'' p);
          build_ok =
            (case build of
               None \<Rightarrow> True
             | Some b \<Rightarrow> list_all build_identifier (split_on CHR ''.'' b))
      in if length nums = 3 \<and> list_all numeric_identifier nums \<and>
            list_all prerelease_identifier ids \<and> build_ok
         then Some \<lparr>major = decimal (nums ! 0), minor = decimal (nums ! 1),
                     patch = decimal (nums ! 2), prerelease = map to_identifier ids\<rparr>
         else None)"

text \<open>Modelled from the spec: \<^verbatim>\<open>semver.clean\<close>.\<close>

fun semver_clean :: "jsval \<Rightarrow> js_exception + semver option" where
  "semver_clean (JString s) =
     Inr (semver_parse (dropWhile (\<lambda>c. c \<in> set ''=v'') (trim s)))"
| "semver_clean (JProto n) = Inl TypeError"

text \<open>
  Modelled from the spec: the comparison behind \<^verbatim>\<open>semver.lte\<close>, in the package's
  style: \<open>-1\<close>, \<open>0\<close> or \<open>1\<close>, the first non-zero result wins.
\<close>

fun str_less :: "string \<Rightarrow> string \<Rightarrow> bool" where
  "str_less [] [] = False"
| "str_less [] (y # ys) = True"
| "str_less (x # xs) [] = False"
| "str_less (x # xs) (y # ys) =
     ((of_char x :: nat) < of_char y \<or> (x = y \<and> str_less xs ys))"

definition compare_nat :: "nat \<Rightarrow> nat \<Rightarrow> int" where
  "compare_nat a b = (if a = b then 0 else if a < b then - 1 else 1)"

fun compareIdentifiers :: "ident \<Rightarrow> ident \<Rightarrow> int" where
  "compareIdentifiers (Numeric a) (Numeric b) = compare_nat a b"
| "compareIdentifiers (Numeric a) (Alphanumeric b) = - 1"
| "compareIdentifiers (Alphanumeric a) (Numeric b) = 1"
| "compareIdentifiers (Alphanumeric a) (Alphanumeric b) =
     (if a = b then 0 else if str_less a b then - 1 else 1)"

definition compareMain :: "semver \<Rightarrow> semver \<Rightarrow> int" where
  "compareMain a b =
     (if compare_nat (major a) (major b) \<noteq> 0 then compare_nat (major a) (major b)
      else if compare_nat (minor a) (minor b) \<noteq> 0 then compare_nat (minor a) (minor b)
      else compare_nat (patch a) (patch b))"

fun compare_identifier_lists :: "ident list \<Rightarrow> ident list \<Rightarrow> int" where
  "compare_identifier_lists [] [] = 0"
| "compare_identifier_lists (a # as) [] = 1"
| "compare_identifier_lists [] (b # bs) = - 1"
| "compare_identifier_lists (a # as) (b # bs) =
     (if a = b then compare_identifier_lists as bs else compareIdentifiers a b)"

definition comparePre :: "semver \<Rightarrow> semver \<Rightarrow> int" where
  "comparePre a b =
     (if prerelease a \<noteq> [] \<and> prerelease b = [] then - 1
      else if prerelease a = [] \<and> prerelease b \<noteq> [] then 1
      else if prerelease a = [] \<and> prerelease b = [] then 0
      else compare_identifier_lists (prerelease a) (prerelease b))"

definition semver_compare :: "semver \<Rightarrow> semver \<Rightarrow> int" where
  "semver_compare a b = (if compareMain a b \<noteq> 0 then compareMain a b else comparePre a b)"

text \<open>Modelled from the spec: \<^verbatim>\<open>semver.lte\<close>.\<close>

definition semver_lte :: "semver \<Rightarrow> semver \<Rightarrow> bool" where
  "semver_lte a b = (semver_compare a b \<le> 0)"

text \<open>
  The order of the Semantic Versioning specification, in its own words: major, then
  minor, then patch; with these equal, a version with a pre-release comes before the
  one without; two pre-releases are compared identifier by identifier, numeric ones
  as numbers, others as ASCII text, a numeric one before any other, and with all
  shared identifiers equal the shorter list first.
\<close>

fun identifier_less :: "ident \<Rightarrow> ident \<Rightarrow> bool" where
  "identifier_less (Numeric a) (Numeric b) = (a < b)"
| "identifier_less (Numeric a) (Alphanumeric b) = True"
| "identifier_less (Alphanumeric a) (Numeric b) = False"
| "identifier_less (Alphanumeric a) (Alphanumeric b) = str_less a b"

fun identifiers_le :: "ident list \<Rightarrow> ident list \<Rightarrow> bool" where
  "identifiers_le [] bs = True"
| "identifiers_le (a # as) [] = False"
| "identifiers_le (a # as) (b # bs) = (identifier_less a b \<or> (a = b \<and> identifiers_le as bs))"

definition prerelease_le :: "ident list \<Rightarrow> ident list \<Rightarrow> bool" where
  "prerelease_le as bs =
     (if as = [] then bs = [] else if bs = [] then True else identifiers_le as bs)"

definition precedence_le :: "semver \<Rightarrow> semver \<Rightarrow> bool" where
  "precedence_le a b =
     (major a < major b \<or>
      (major a = major b \<and>
       (minor a < minor b \<or>
        (minor a = minor b \<and>
         (patch a < patch b \<or>
          (patch a = patch b \<and> prerelease_le (prerelease a) (prerelease b)))))))"

subsection \<open>Version comparator: \<^verbatim>\<open>isVersionLowerOrEqual\<close> (lines 161-178)\<close>

definition isVersionLowerOrEqual :: "jsval \<Rightarrow> string option \<Rightarrow> bool \<times> out list" where
  "isVersionLowerOrEqual installedVersion requiredVersion =
     (case requiredVersion of
        None \<Rightarrow> (False, [])
      | Some required \<Rightarrow>
          if required = [] then (False, [])
          else
            (case semver_clean installedVersion of
               Inl e \<Rightarrow> (False, [Warn (MsgCompareError installedVersion required)])
             | Inr cleanInstalledVersion \<Rightarrow>
                 (case semver_clean (JString required) of
                    Inl e \<Rightarrow> (False, [Warn (MsgCompareError installedVersion required)])
                  | Inr cleanRequiredVersion \<Rightarrow>
                      (case (cleanInstalledVersion, cleanRequiredVersion) of
                         (Some a, Some b) \<Rightarrow> (semver_lte a b, [])
                       | _ \<Rightarrow> (False, [])))))"

subsection \<open>Report writer: \<^verbatim>\<open>writeResultsToCSV\<close> (lines 185-200)\<close>

record match_record =
  result_packageName :: string
  result_version :: jsval
  requiredVersion :: "string option"
  isLowerOrEqual :: bool

text \<open>
  The header line and the warning mark are the UTF-8 bytes of the source's literals.
  A template literal turns a native function into \<^verbatim>\<open>function f() { [native code] }\<close>
  and the prototype object into \<^verbatim>\<open>[object Object]\<close>.
\<close>

definition csv_header :: string where
  "csv_header = map char_of
     [227, 131, 145, 227, 131, 131, 227, 130, 177, 227, 131, 188, 227, 130, 184, 229, 144,
      141, 44, 227, 131, 144, 227, 131, 188, 227, 130, 184, 227, 131, 167, 227, 131, 179,
      44, 232, 173, 166, 229, 145, 138 :: nat]"

definition warning_mark :: string where
  "warning_mark = map char_of [195, 151 :: nat]"

fun js_to_string :: "jsval \<Rightarrow> string" where
  "js_to_string (JString s) = s"
| "js_to_string (JProto n) =
     (if n = ''__proto__'' then ''[object Object]''
      else ''function '' @ (if n = ''constructor'' then ''Object'' else n) @
           ''() { [native code] }'')"

definition csv_line :: "match_record \<Rightarrow> string" where
  "csv_line result =
     result_packageName result @ '','' @ js_to_string (result_version result) @ '','' @
     (if isLowerOrEqual result then warning_mark else [])"

definition writeResultsToCSV ::
  "filesystem \<Rightarrow> match_record list \<Rightarrow> string \<Rightarrow> error + (string \<times> string) list \<times> out list"
where
  "writeResultsToCSV fs results outputPath =
     (if length results = 0 then Inr ([], [Log MsgNoPackages])
      else
        (let csvLines = csv_header # map csv_line results
         in if writable fs outputPath
            then Inr ([(outputPath, join [CHR 0x0A] csvLines)], [Log (MsgWritten outputPath)])
            else Inl (WriteFailed outputPath)))"

subsection \<open>\<^verbatim>\<open>main\<close> (lines 205-262)\<close>

text \<open>The join of lines 235-250: the watch entries in order, against the resolved map.\<close>

fun check_packages :: "packages \<Rightarrow> watch_entry list \<Rightarrow> match_record list \<times> out list" where
  "check_packages projectPackages [] = ([], [])"
| "check_packages projectPackages (listPackage # rest) =
     (let installedVersion = get_prop projectPackages (packageName listPackage)
      in case installedVersion of
           None \<Rightarrow> check_packages projectPackages rest
         | Some installed \<Rightarrow>
             if truthy installedVersion then
               (let (lower, warned) = isVersionLowerOrEqual installed (version listPackage);
                    (results, printed) = check_packages projectPackages rest
                in (\<lparr>result_packageName = packageName listPackage,
                      result_version = installed,
                      requiredVersion = version listPackage,
                      isLowerOrEqual = lower\<rparr> # results,
                    warned @ [Log (MsgDetected (packageName listPackage) installed lower)]
                      @ printed))
             else check_packages projectPackages rest)"

record run =
  exit_code :: nat
  console :: "out list"
  written :: "(string \<times> string) list"

definition main :: "filesystem \<Rightarrow> string list \<Rightarrow> run" where
  "main fs args =
     (if length args < 2 then
        \<lparr>exit_code = 1, console = [Error MsgUsage, Error MsgUsageExample], written = []\<rparr>
      else
        (let listFilePath = args ! 0;
             projectPath = args ! 1;
             outputPath = (if 2 < length args \<and> args ! 2 \<noteq> [] then args ! 2 else ''result.csv'');
             opening = [Log (MsgListPath listFilePath), Log (MsgProjectPath projectPath),
                        Log (MsgOutputPath outputPath), Log MsgBlank]
         in case loadPackageList fs listFilePath of
              Inl e \<Rightarrow>
                \<lparr>exit_code = 1, console = opening @ [Error (MsgFailure e)], written = []\<rparr>
            | Inr packageList \<Rightarrow>
                (let listed = opening @ [Log (MsgListLoaded (length packageList))]
                 in case loadProjectPackages fs projectPath of
                      Inl e \<Rightarrow>
                        \<lparr>exit_code = 1, console = listed @ [Error (MsgFailure e)], written = []\<rparr>
                    | Inr (projectPackages, loading) \<Rightarrow>
                        (let loaded = listed @ loading @
                               [Log (MsgProjectLoaded (length projectPackages))];
                             (results, checking) = check_packages projectPackages packageList
                         in case writeResultsToCSV fs results outputPath of
                              Inl e \<Rightarrow>
                                \<lparr>exit_code = 1,
                                 console = loaded @ checking @ [Error (MsgFailure e)],
                                 written = []\<rparr>
                            | Inr (files, reporting) \<Rightarrow>
                                \<lparr>exit_code = 0,
                                 console = loaded @ checking @ reporting @
                                   [Log MsgBlank, Log (MsgDone (length results))],
                                 written = files\<rparr>))))"

subsection \<open>Views used in the statements\<close>

text \<open>
  The assignments the nested collector makes, in the order of a depth-first walk:
  an entry's own version first (when it has a non-empty one), then everything below
  it, then the entries after it.
\<close>

fun depth_first_assignments :: "(string \<times> dep_info) list \<Rightarrow> (string \<times> string) list" where
  "depth_first_assignments [] = []"
| "depth_first_assignments ((name, DepInfo v nested) # rest) =
     (case v of
        None \<Rightarrow> []
      | Some s \<Rightarrow> if s \<noteq> [] then [(name, strip_range_operators s)] else []) @
     (case nested of None \<Rightarrow> [] | Some d \<Rightarrow> depth_first_assignments d) @
     depth_first_assignments rest"

text \<open>
  The assignments made for the flattened schema, in the order of its entries: an entry
  whose path is \<open>node_modules/\<close> followed by a name without \<open>/node_modules/\<close>, and
  whose version is not empty, gives that name its cleaned version.
\<close>

fun top_level_assignments :: "(string \<times> lock_entry) list \<Rightarrow> (string \<times> string) list" where
  "top_level_assignments [] = []"
| "top_level_assignments ((packagePath, LockEntry v) # rest) =
     (case v of
        None \<Rightarrow> []
      | Some s \<Rightarrow>
          if s \<noteq> [] \<and> take 13 packagePath = ''node_modules/'' \<and>
             \<not> includes_str (drop 13 packagePath) ''/node_modules/''
          then [(drop 13 packagePath, strip_range_operators s)]
          else []) @
     top_level_assignments rest"

text \<open>All assignments a lockfile gives rise to: the nested schema first, then the flattened one.\<close>

definition lock_assignments :: "package_lock \<Rightarrow> (string \<times> string) list" where
  "lock_assignments packageLock =
     (case lock_dependencies packageLock of None \<Rightarrow> [] | Some d \<Rightarrow> depth_first_assignments d) @
     (case lock_packages packageLock of None \<Rightarrow> [] | Some es \<Rightarrow> top_level_assignments es)"

text \<open>
  The assignments a manifest gives rise to: its dependencies, then its devDependencies,
  then its peerDependencies.
\<close>

definition manifest_assignments :: "package_json \<Rightarrow> (string \<times> string) list" where
  "manifest_assignments packageJson =
     (case dependencies packageJson of None \<Rightarrow> [] | Some d \<Rightarrow> d) @
     (case devDependencies packageJson of None \<Rightarrow> [] | Some d \<Rightarrow> d) @
     (case peerDependencies packageJson of None \<Rightarrow> [] | Some d \<Rightarrow> d)"

text \<open>The record the join makes of one watch entry, when it makes one.\<close>

definition match_of :: "packages \<Rightarrow> watch_entry \<Rightarrow> match_record option" where
  "match_of projectPackages listPackage =
     (case get_prop projectPackages (packageName listPackage) of
        None \<Rightarrow> None
      | Some installed \<Rightarrow>
          if truthy (Some installed) then
            Some \<lparr>result_packageName = packageName listPackage,
                  result_version = installed,
                  requiredVersion = version listPackage,
                  isLowerOrEqual = fst (isVersionLowerOrEqual installed (version listPackage))\<rparr>
          else None)"

text \<open>The files a run leaves behind for a list of records: none for the empty list.\<close>

definition report :: "string \<Rightarrow> match_record list \<Rightarrow> (string \<times> string) list" where
  "report outputPath results =
     (if results = [] then []
      else [(outputPath, join [CHR 0x0A] (csv_header # map csv_line results))])"

text \<open>
  A sample project in the manner of the README: a manifest, a lockfile carrying both
  schemas, and a file system that holds them under \<open>proj\<close> next to a watch-list
  \<open>packages.txt\<close>.
\<close>

definition example_manifest :: package_json where
  "example_manifest =
     \<lparr>dependencies = Some [(''lodash'', ''^4.17.20''), (''react'', ''18.2.0'')],
      devDependencies = Some [(''typescript'', ''~5.0.0'')],
      peerDependencies = None\<rparr>"

definition example_lock :: package_lock where
  "example_lock =
     \<lparr>lock_dependencies =
        Some [(''lodash'', DepInfo (Some ''4.17.21'')
                 (Some [(''js-tokens'', DepInfo (Some ''4.0.0'') None)]))],
      lock_packages =
        Some [('''', LockEntry (Some ''1.0.0'')),
              (''node_modules/react'', LockEntry (Some ''18.3.1'')),
              (''node_modules/react/node_modules/lodash'', LockEntry (Some ''3.10.1''))]\<rparr>"

definition example_fs ::
  "string file_state \<Rightarrow> package_json file_state \<Rightarrow> package_lock file_state \<Rightarrow> filesystem"
where
  "example_fs watch_list manifest lock =
     \<lparr>path_join = (\<lambda>dir name. dir @ ''/'' @ name),
      list_file = (\<lambda>p. if p = ''packages.txt'' then watch_list else Missing),
      manifest_file = (\<lambda>p. if p = ''proj/package.json'' then manifest else Missing),
      lock_file = (\<lambda>p. if p = ''proj/package-lock.json'' then lock else Missing),
      writable = (\<lambda>p. True)\<rparr>"

section \<open>Properties\<close>

subsection \<open>Facts about the string primitives\<close>

lemma lastIndexOf_ge: "- 1 \<le> lastIndexOf s c"
  by (induction s) (auto simp: Let_def)

lemma lastIndexOf_none: "(lastIndexOf s c = - 1) = (c \<notin> set s)"
proof (induction s)
  case Nil
  then show ?case by simp
next
  case (Cons x xs)
  have "- 1 \<le> lastIndexOf xs c" by (rule lastIndexOf_ge)
  with Cons show ?case by (auto simp: Let_def)
qed

lemma lastIndexOf_append:
  "c \<notin> set post \<Longrightarrow> lastIndexOf (pre @ c # post) c = int (length pre)"
proof (induction pre)
  case Nil
  then show ?case by (simp add: Let_def lastIndexOf_none)
next
  case (Cons x xs)
  then show ?case by (simp add: Let_def)
qed

lemma last_occurrence:
  "c \<in> set s \<Longrightarrow> \<exists>pre post. s = pre @ c # post \<and> c \<notin> set post"
  by (metis split_list_last)

lemma substring_prefix: "substring (pre @ rest) 0 (int (length pre)) = pre"
  by (simp add: substring_def Let_def)

lemma substring_from_suffix: "substring_from (pre @ c # post) (int (length pre) + 1) = post"
  by (simp add: substring_from_def nat_add_distrib)

lemma parse_unscoped_at:
  assumes "trim raw = pre @ CHR ''@'' # post" "CHR ''@'' \<notin> set post"
    "\<not> startsWith (trim raw) ''@''"
  shows "parsePackageLine raw = Some \<lparr>packageName = pre, version = Some post\<rparr>"
proof -
  have idx: "lastIndexOf (trim raw) CHR ''@'' = int (length pre)"
    using assms(1,2) by (simp add: lastIndexOf_append)
  show ?thesis
    using assms(3) unfolding parsePackageLine_def Let_def idx
    by (simp add: assms(1) substring_prefix substring_from_suffix)
qed

lemma parse_unscoped_plain:
  assumes "trim raw \<noteq> []" "CHR ''@'' \<notin> set (trim raw)"
  shows "parsePackageLine raw = Some \<lparr>packageName = trim raw, version = None\<rparr>"
proof -
  have idx: "lastIndexOf (trim raw) CHR ''@'' = - 1"
    using assms(2) by (simp add: lastIndexOf_none)
  have "\<not> startsWith (trim raw) ''@''"
    using assms by (cases "trim raw") (auto simp: startsWith_def)
  then show ?thesis
    using assms(1) unfolding parsePackageLine_def Let_def idx by simp
qed

lemma split_on_nonempty: "split_on c s \<noteq> []"
  by (induction s) (auto simp: Let_def)

lemma split_on_no_sep: "c \<notin> set s \<Longrightarrow> split_on c s = [s]"
  by (induction s) (auto simp: Let_def)

lemma split_on_append:
  "c \<notin> set pre \<Longrightarrow> split_on c (pre @ c # rest) = pre # split_on c rest"
  by (induction pre) (auto simp: Let_def)

lemma split_on_length: "length (split_on c s) = Suc (length (filter (\<lambda>x. x = c) s))"
proof (induction s)
  case Nil
  then show ?case by simp
next
  case (Cons x xs)
  have "split_on c xs \<noteq> []" by (rule split_on_nonempty)
  then have "length (tl (split_on c xs)) = length (split_on c xs) - 1" by simp
  with Cons show ?case by (auto simp: Let_def)
qed

lemma split_on_segments: "seg \<in> set (split_on c s) \<Longrightarrow> c \<notin> set seg"
proof (induction s arbitrary: seg)
  case Nil
  then show ?case by simp
next
  case (Cons x xs)
  have ne: "split_on c xs \<noteq> []" by (rule split_on_nonempty)
  show ?case
  proof (cases "x = c")
    case True
    with Cons show ?thesis by (auto simp: Let_def)
  next
    case False
    from Cons.prems False have "seg = x # hd (split_on c xs) \<or> seg \<in> set (tl (split_on c xs))"
      by (auto simp: Let_def)
    then show ?thesis
    proof
      assume "seg = x # hd (split_on c xs)"
      moreover have "hd (split_on c xs) \<in> set (split_on c xs)" using ne by simp
      ultimately show ?thesis using Cons.IH False by auto
    next
      assume "seg \<in> set (tl (split_on c xs))"
      then have "seg \<in> set (split_on c xs)" using ne by (metis list.set_sel(2))
      then show ?thesis using Cons.IH by simp
    qed
  qed
qed

lemma join_split_on: "join [c] (split_on c s) = s"
proof (induction s)
  case Nil
  then show ?case by simp
next
  case (Cons x xs)
  obtain h t where ht: "split_on c xs = h # t"
    using split_on_nonempty by (cases "split_on c xs") auto
  show ?case
  proof (cases "x = c")
    case True
    with Cons ht show ?thesis by (simp add: Let_def)
  next
    case False
    with Cons ht show ?thesis by (cases t) (auto simp: Let_def)
  qed
qed

lemma parse_lines_append: "parse_lines (xs @ ys) = parse_lines xs @ parse_lines ys"
  by (induction xs) (auto split: option.splits)

subsection \<open>The specifier parser\<close>

text \<open>
  Claim C5. A trimmed line that starts with \<open>@\<close> is split on \<open>@\<close> (the segments
  joined by \<open>@\<close> give the line back). With exactly two segments the entry is the
  whole line and no version; with exactly three the name is \<open>@\<close> followed by the
  second segment and the version is the third; with any other number the result is
  null, and the list loader passes over such a line: the entries are those of the lines
  before it followed by those of the lines after it. Neither function prints anything.
\<close>

theorem scoped_specifier_segments:
  assumes "line = trim raw" and "startsWith line ''@''"
  shows "join ''@'' (split_on CHR ''@'' line) = line \<and>
     (length (split_on CHR ''@'' line) = 2 \<longrightarrow>
        parsePackageLine raw = Some \<lparr>packageName = line, version = None\<rparr>) \<and>
     (length (split_on CHR ''@'' line) = 3 \<longrightarrow>
        parsePackageLine raw =
          Some \<lparr>packageName = CHR ''@'' # split_on CHR ''@'' line ! 1,
                version = Some (split_on CHR ''@'' line ! 2)\<rparr>) \<and>
     (length (split_on CHR ''@'' line) \<noteq> 2 \<and> length (split_on CHR ''@'' line) \<noteq> 3 \<longrightarrow>
        parsePackageLine raw = None \<and>
        parse_lines (before @ raw # after) = parse_lines before @ parse_lines after)"
proof -
  have ne: "line \<noteq> []" using assms(2) by (auto simp: startsWith_def)
  have j: "join ''@'' (split_on CHR ''@'' line) = line" by (rule join_split_on)
  have two: "length (split_on CHR ''@'' line) = 2 \<Longrightarrow>
      parsePackageLine raw = Some \<lparr>packageName = line, version = None\<rparr>"
    using assms ne by (simp add: parsePackageLine_def Let_def)
  have three: "length (split_on CHR ''@'' line) = 3 \<Longrightarrow>
      parsePackageLine raw =
        Some \<lparr>packageName = CHR ''@'' # split_on CHR ''@'' line ! 1,
              version = Some (split_on CHR ''@'' line ! 2)\<rparr>"
    using assms ne by (simp add: parsePackageLine_def Let_def)
  have other: "parsePackageLine raw = None \<and>
      parse_lines (before @ raw # after) = parse_lines before @ parse_lines after"
    if "length (split_on CHR ''@'' line) \<noteq> 2" "length (split_on CHR ''@'' line) \<noteq> 3"
  proof -
    have n: "parsePackageLine raw = None"
      using assms ne that by (simp add: parsePackageLine_def Let_def)
    then show ?thesis by (simp add: parse_lines_append)
  qed
  from j two three other show ?thesis by blast
qed

theorem scoped_specifier_segments_witness:
  "parsePackageLine (CHR 0x20 # ''@types/node'' @ [CHR 0xC2, CHR 0xA0]) = Some \<lparr>packageName = ''@types/node'', version = None\<rparr> \<and>
   parsePackageLine ''@types/node@16.0.0'' =
     Some \<lparr>packageName = ''@types/node'', version = Some ''16.0.0''\<rparr> \<and>
   parsePackageLine ''@babel/core@7.15.0@next'' = None \<and>
   parse_lines [''react@17.0.0'', ''@babel/core@7.15.0@next'', ''express''] =
     parse_lines [''react@17.0.0''] @ parse_lines [''express'']"
proof -
  have t1: "''@types/node'' = trim (CHR 0x20 # ''@types/node'' @ [CHR 0xC2, CHR 0xA0])" by code_simp
  have t2: "''@types/node@16.0.0'' = trim ''@types/node@16.0.0''" by code_simp
  have t3: "''@babel/core@7.15.0@next'' = trim ''@babel/core@7.15.0@next''"
    by code_simp
  have s1: "startsWith ''@types/node'' ''@''" by (simp add: startsWith_def)
  have s2: "startsWith ''@types/node@16.0.0'' ''@''" by (simp add: startsWith_def)
  have s3: "startsWith ''@babel/core@7.15.0@next'' ''@''" by (simp add: startsWith_def)
  have l1: "length (split_on CHR ''@'' ''@types/node'') = 2" by (simp add: split_on_length)
  have l2: "split_on CHR ''@'' ''@types/node@16.0.0'' = ['''', ''types/node'', ''16.0.0'']"
    by (simp add: Let_def)
  have l3: "length (split_on CHR ''@'' ''@babel/core@7.15.0@next'') = 4" by (simp add: split_on_length)
  from scoped_specifier_segments [OF t1 s1] l1
  have a: "parsePackageLine (CHR 0x20 # ''@types/node'' @ [CHR 0xC2, CHR 0xA0]) = Some \<lparr>packageName = ''@types/node'', version = None\<rparr>"
    by simp
  from scoped_specifier_segments [OF t2 s2] l2
  have b: "parsePackageLine ''@types/node@16.0.0'' =
     Some \<lparr>packageName = ''@types/node'', version = Some ''16.0.0''\<rparr>"
    by simp
  from scoped_specifier_segments [OF t3 s3, of "[''react@17.0.0'']" "[''express'']"] l3
  have c: "parsePackageLine ''@babel/core@7.15.0@next'' = None \<and>
     parse_lines ([''react@17.0.0''] @ ''@babel/core@7.15.0@next'' # [''express'']) =
     parse_lines [''react@17.0.0''] @ parse_lines [''express'']"
    by simp
  from a b c show ?thesis by simp
qed

text \<open>
  Claim C6, as amended. A non-blank trimmed line that does not start with \<open>@\<close>:
  without any \<open>@\<close> the entry is the whole line and no version; otherwise the line is
  cut at its last \<open>@\<close>, the name being the text before it and the version the text
  after it. In particular \<open>name@ver\<close> gives exactly that name and that version
  when neither the name nor the version contains \<open>@\<close>.
\<close>

theorem unscoped_specifier_last_at:
  assumes "trim raw \<noteq> []" and "\<not> startsWith (trim raw) ''@''"
  shows "(CHR ''@'' \<notin> set (trim raw) \<longrightarrow>
        parsePackageLine raw = Some \<lparr>packageName = trim raw, version = None\<rparr>) \<and>
     (CHR ''@'' \<in> set (trim raw) \<longrightarrow>
        (\<exists>before after. trim raw = before @ CHR ''@'' # after \<and> CHR ''@'' \<notin> set after \<and>
           parsePackageLine raw = Some \<lparr>packageName = before, version = Some after\<rparr>)) \<and>
     (trim raw = name @ CHR ''@'' # ver \<and> CHR ''@'' \<notin> set name \<and> CHR ''@'' \<notin> set ver \<longrightarrow>
        parsePackageLine raw = Some \<lparr>packageName = name, version = Some ver\<rparr>)"
proof (intro conjI impI)
  assume "CHR ''@'' \<notin> set (trim raw)"
  with assms(1) show "parsePackageLine raw = Some \<lparr>packageName = trim raw, version = None\<rparr>"
    by (rule parse_unscoped_plain)
next
  assume "CHR ''@'' \<in> set (trim raw)"
  then have "\<exists>pre post. trim raw = pre @ CHR ''@'' # post \<and> CHR ''@'' \<notin> set post"
    by (rule last_occurrence)
  then obtain pre post where d1: "trim raw = pre @ CHR ''@'' # post" and d2: "CHR ''@'' \<notin> set post"
    by (elim exE conjE)
  from d1 d2 assms(2)
  have p: "parsePackageLine raw = Some \<lparr>packageName = pre, version = Some post\<rparr>"
    by (rule parse_unscoped_at)
  show "\<exists>before after. trim raw = before @ CHR ''@'' # after \<and> CHR ''@'' \<notin> set after \<and>
      parsePackageLine raw = Some \<lparr>packageName = before, version = Some after\<rparr>"
    by (intro exI conjI) (rule d1, rule d2, rule p)
next
  assume h: "trim raw = name @ CHR ''@'' # ver \<and> CHR ''@'' \<notin> set name \<and> CHR ''@'' \<notin> set ver"
  from h have h1: "trim raw = name @ CHR ''@'' # ver" by (rule conjunct1)
  from h have h2: "CHR ''@'' \<notin> set ver" by (elim conjE)
  from h1 h2 assms(2)
  show "parsePackageLine raw = Some \<lparr>packageName = name, version = Some ver\<rparr>"
    by (rule parse_unscoped_at)
qed

theorem unscoped_specifier_last_at_witness:
  "parsePackageLine ''express'' = Some \<lparr>packageName = ''express'', version = None\<rparr> \<and>
   parsePackageLine ([CHR 0xEF, CHR 0xBB, CHR 0xBF] @ ''lodash@4.17.21'' @ [CHR 0x0D]) =
     Some \<lparr>packageName = ''lodash'', version = Some ''4.17.21''\<rparr>"
proof -
  have t1: "trim ''express'' = ''express''" by code_simp
  have t2: "trim ([CHR 0xEF, CHR 0xBB, CHR 0xBF] @ ''lodash@4.17.21'' @ [CHR 0x0D]) = ''lodash@4.17.21''" by code_simp
  have e1: "trim ''express'' \<noteq> []" unfolding t1 by simp
  have e2: "trim ([CHR 0xEF, CHR 0xBB, CHR 0xBF] @ ''lodash@4.17.21'' @ [CHR 0x0D]) \<noteq> []" unfolding t2 by simp
  have n1: "\<not> startsWith (trim ''express'') ''@''" unfolding t1 by (simp add: startsWith_def)
  have n2: "\<not> startsWith (trim ([CHR 0xEF, CHR 0xBB, CHR 0xBF] @ ''lodash@4.17.21'' @ [CHR 0x0D])) ''@''" unfolding t2 by (simp add: startsWith_def)
  have p1: "CHR ''@'' \<notin> set (trim ''express'')" unfolding t1 by simp
  have p2: "trim ([CHR 0xEF, CHR 0xBB, CHR 0xBF] @ ''lodash@4.17.21'' @ [CHR 0x0D]) = ''lodash'' @ CHR ''@'' # ''4.17.21'' \<and>
      CHR ''@'' \<notin> set ''lodash'' \<and> CHR ''@'' \<notin> set ''4.17.21''"
    unfolding t2 by simp
  note a = unscoped_specifier_last_at [OF e1 n1, THEN conjunct1, THEN mp, OF p1]
  note b = unscoped_specifier_last_at [OF e2 n2, THEN conjunct2, THEN conjunct2, THEN mp, OF p2]
  from a b show ?thesis by (simp only: t1 simp_thms)
qed

text \<open>
  Claim C6 as stated fails when the version part itself contains \<open>@\<close>, as in an
  alias specifier: the name \<open>lodash\<close> has no \<open>@\<close>, yet the line is cut at the
  last \<open>@\<close> and the name that comes out is \<open>lodash@npm:lodash-es\<close>.
\<close>

theorem unscoped_version_with_at_counterexample:
  "CHR ''@'' \<notin> set ''lodash'' \<and>
   trim (''lodash'' @ ''@'' @ ''npm:lodash-es@4.17.21'') = ''lodash'' @ ''@'' @ ''npm:lodash-es@4.17.21'' \<and>
   parsePackageLine (''lodash'' @ ''@'' @ ''npm:lodash-es@4.17.21'') =
     Some \<lparr>packageName = ''lodash@npm:lodash-es'', version = Some ''4.17.21''\<rparr> \<and>
   parsePackageLine (''lodash'' @ ''@'' @ ''npm:lodash-es@4.17.21'') \<noteq>
     Some \<lparr>packageName = ''lodash'', version = Some ''npm:lodash-es@4.17.21''\<rparr>"
  by code_simp

text \<open>
  Claim C10. Without a requested version the comparator answers false whatever the
  installed value is, and prints nothing; an empty requested version is treated the
  same way. An unscoped line that ends in \<open>@\<close> parses to the name before it and the
  empty version (not an absent one), so such an entry is never reported stale.
\<close>

theorem never_stale_without_threshold:
  "isVersionLowerOrEqual installed None = (False, []) \<and>
   isVersionLowerOrEqual installed (Some []) = isVersionLowerOrEqual installed None \<and>
   (trim raw \<noteq> [] \<and> \<not> startsWith (trim raw) ''@'' \<and> last (trim raw) = CHR ''@'' \<longrightarrow>
      parsePackageLine raw = Some \<lparr>packageName = butlast (trim raw), version = Some []\<rparr> \<and>
      (\<forall>e. parsePackageLine raw = Some e \<longrightarrow> isVersionLowerOrEqual installed (version e) = (False, [])))"
proof -
  have a: "isVersionLowerOrEqual installed None = (False, [])"
    by (simp add: isVersionLowerOrEqual_def)
  have b: "isVersionLowerOrEqual installed (Some []) = (False, [])"
    by (simp add: isVersionLowerOrEqual_def)
  have c: "parsePackageLine raw = Some \<lparr>packageName = butlast (trim raw), version = Some []\<rparr>"
    if "trim raw \<noteq> []" "\<not> startsWith (trim raw) ''@''" "last (trim raw) = CHR ''@''"
  proof -
    have "trim raw = butlast (trim raw) @ CHR ''@'' # []"
      using that(1,3) by (metis append_butlast_last_id)
    then show ?thesis using parse_unscoped_at [of raw "butlast (trim raw)" "[]"] that(2) by simp
  qed
    have d: "isVersionLowerOrEqual installed (version e) = (False, [])"
    if "parsePackageLine raw = Some \<lparr>packageName = butlast (trim raw), version = Some []\<rparr>"
       "parsePackageLine raw = Some e" for e
    using that b by auto
  show ?thesis
    using a b c d by (intro conjI impI allI) simp_all
qed

theorem never_stale_without_threshold_witness:
  "parsePackageLine ([CHR 0xEF, CHR 0xBB, CHR 0xBF] @ ''name@'') = Some \<lparr>packageName = ''name'', version = Some []\<rparr> \<and>
   isVersionLowerOrEqual (JString ''1.0.0'') (Some []) = (False, []) \<and>
   isVersionLowerOrEqual (JString ''1.0.0'') None = (False, [])"
proof -
  have t: "trim ([CHR 0xEF, CHR 0xBB, CHR 0xBF] @ ''name@'') = ''name@''" by code_simp
  have h: "trim ([CHR 0xEF, CHR 0xBB, CHR 0xBF] @ ''name@'') \<noteq> [] \<and> \<not> startsWith (trim ([CHR 0xEF, CHR 0xBB, CHR 0xBF] @ ''name@'')) ''@'' \<and> last (trim ([CHR 0xEF, CHR 0xBB, CHR 0xBF] @ ''name@'')) = CHR ''@''"
    unfolding t by (simp add: startsWith_def)
  note th = never_stale_without_threshold [of "JString ''1.0.0''" "[CHR 0xEF, CHR 0xBB, CHR 0xBF] @ ''name@''"]
  note a = th [THEN conjunct1]
  note b = th [THEN conjunct2, THEN conjunct1]
  note c = th [THEN conjunct2, THEN conjunct2, THEN mp, OF h, THEN conjunct1]
  from a b c [unfolded t] show ?thesis by simp
qed

subsection \<open>The lockfile collector\<close>

lemma object_assign_Nil: "object_assign packages [] = packages"
  by (simp add: object_assign_def)

lemma object_assign_Cons:
  "object_assign packages ((name, v) # rest) = object_assign (set_prop packages name v) rest"
  by (simp add: object_assign_def)

lemma object_assign_append:
  "object_assign packages (xs @ ys) = object_assign (object_assign packages xs) ys"
  by (simp add: object_assign_def)

lemma map_of_set_prop:
  "map_of (set_prop packages name v) n =
     (if name = ''__proto__'' then map_of packages n else ((map_of packages)(name \<mapsto> v)) n)"
  by (simp add: set_prop_def update_conv')

lemma map_of_object_assign:
  "map_of (object_assign packages xs) n =
     (if n = ''__proto__'' then map_of packages n
      else case map_of (rev xs) n of None \<Rightarrow> map_of packages n | Some v \<Rightarrow> Some v)"
proof (induction xs arbitrary: packages)
  case Nil
  then show ?case by (simp add: object_assign_Nil)
next
  case (Cons x xs)
  obtain k v where x: "x = (k, v)" by (cases x)
  show ?case
    unfolding x object_assign_Cons Cons.IH
    by (auto simp: map_of_set_prop map_add_def split: option.splits)
qed

lemma map_of_object_assign_over:
  "map_of (object_assign packages xs) n =
     (case map_of (object_assign [] xs) n of None \<Rightarrow> map_of packages n | Some v \<Rightarrow> Some v)"
  by (simp add: map_of_object_assign split: option.splits)

lemma collect_as_assignments:
  "collectAllDependencies deps packages =
     object_assign packages (case deps of None \<Rightarrow> [] | Some d \<Rightarrow> depth_first_assignments d)"
  "collect_entries entries packages = object_assign packages (depth_first_assignments entries)"
proof (induction deps packages and entries packages
    rule: collectAllDependencies_collect_entries.induct)
  case (1 packages)
  then show ?case by (simp add: object_assign_Nil)
next
  case (2 deps packages)
  then show ?case by simp
next
  case (3 packages)
  then show ?case by (simp add: object_assign_Nil)
next
  case (4 name v nested rest packages)
  then show ?case
    by (cases v; cases nested)
      (simp_all add: object_assign_append object_assign_Cons object_assign_Nil Let_def)
qed

lemma strip_range_operators_dropWhile:
  "strip_range_operators v = dropWhile (\<lambda>c. c \<in> set ''^~>=<'') v"
  by (induction v) (simp_all add: range_operators_def)

lemma startsWith_iff: "startsWith s p = (\<exists>rest. s = p @ rest)"
proof
  assume "startsWith s p"
  then have "s = p @ drop (length p) s"
    by (metis append_take_drop_id startsWith_def)
  then show "\<exists>rest. s = p @ rest" ..
next
  assume "\<exists>rest. s = p @ rest"
  then show "startsWith s p" by (auto simp: startsWith_def)
qed

lemma includes_str_iff: "includes_str s p = (\<exists>pre post. s = pre @ p @ post)"
proof (induction s)
  case Nil
  then show ?case by simp
next
  case (Cons x xs)
  show ?case
  proof
    assume "includes_str (x # xs) p"
    then consider "startsWith (x # xs) p" | "includes_str xs p" by auto
    then show "\<exists>pre post. x # xs = pre @ p @ post"
    proof cases
      case 1
      then obtain rest where "x # xs = p @ rest" unfolding startsWith_iff ..
      then have "x # xs = [] @ p @ rest" by simp
      then show ?thesis by (intro exI)
    next
      case 2
      then obtain pre post where "xs = pre @ p @ post" using Cons.IH by auto
      then have "x # xs = (x # pre) @ p @ post" by simp
      then show ?thesis by (intro exI)
    qed
  next
    assume "\<exists>pre post. x # xs = pre @ p @ post"
    then obtain pre post where d: "x # xs = pre @ p @ post" by (elim exE)
    show "includes_str (x # xs) p"
    proof (cases pre)
      case Nil
      with d have "startsWith (x # xs) p" unfolding startsWith_iff by auto
      then show ?thesis by simp
    next
      case (Cons y ys)
      with d have "xs = ys @ p @ post" by simp
      then have "includes_str xs p" unfolding Cons.IH by (intro exI)
      then show ?thesis by simp
    qed
  qed
qed

lemma remove_first_prefix: "p \<noteq> [] \<Longrightarrow> remove_first (p @ rest) p = rest"
  by (cases p) (simp_all add: startsWith_def)

text \<open>
  Claim C3. The nested collector makes exactly the assignments of the depth-first walk,
  in that order, each storing the version without its leading run of the characters
  \<open>^ ~ > = <\<close> (later occurrences of these characters stay). An assignment overwrites
  what the map held for that name, so the value found afterwards is the one visited
  last, and a name that is not visited keeps its value. (Assigning the key
  \<open>__proto__\<close> never creates an entry, hence the side condition on lookups.)
  The nested example of the specification gives entries for both \<open>a\<close> and \<open>b\<close>.
\<close>

theorem collector_depth_first_last_wins:
  "collectAllDependencies None packages = packages \<and>
   collectAllDependencies (Some deps) packages =
     object_assign packages (depth_first_assignments deps) \<and>
   (name \<noteq> ''__proto__'' \<longrightarrow>
      map_of (collectAllDependencies (Some deps) packages) name =
        (case map_of (rev (depth_first_assignments deps)) name of
           None \<Rightarrow> map_of packages name
         | Some v \<Rightarrow> Some v)) \<and>
   strip_range_operators v = dropWhile (\<lambda>c. c \<in> set ''^~>=<'') v \<and>
   collectAllDependencies
     (Some [(''a'', DepInfo (Some ''1.0.0'') (Some [(''b'', DepInfo (Some ''2.0.0'') None)]))]) [] =
     [(''a'', ''1.0.0''), (''b'', ''2.0.0'')]"
proof (intro conjI impI)
  show "collectAllDependencies None packages = packages" by simp
  show a: "collectAllDependencies (Some deps) packages =
      object_assign packages (depth_first_assignments deps)"
    by (simp add: collect_as_assignments(2))
  show "strip_range_operators v = dropWhile (\<lambda>c. c \<in> set ''^~>=<'') v"
    by (rule strip_range_operators_dropWhile)
  show "collectAllDependencies
     (Some [(''a'', DepInfo (Some ''1.0.0'') (Some [(''b'', DepInfo (Some ''2.0.0'') None)]))]) [] =
     [(''a'', ''1.0.0''), (''b'', ''2.0.0'')]"
    by (simp add: Let_def set_prop_def range_operators_def)
next
  assume "name \<noteq> ''__proto__''"
  then show "map_of (collectAllDependencies (Some deps) packages) name =
      (case map_of (rev (depth_first_assignments deps)) name of
         None \<Rightarrow> map_of packages name
       | Some v \<Rightarrow> Some v)"
    by (simp add: collect_as_assignments(2) map_of_object_assign)
qed

theorem collector_depth_first_last_wins_witness:
  "map_of (collectAllDependencies
      (Some [(''a'', DepInfo (Some ''^1.0.0'') (Some [(''a'', DepInfo (Some ''>=2.0.0'') None)])),
             (''c'', DepInfo None None)])
      [(''a'', ''0.1.0''), (''d'', ''4.0.0'')]) ''a'' = Some ''2.0.0''"
proof -
  have n: "''a'' \<noteq> ''__proto__''" by simp
  note th = collector_depth_first_last_wins
    [of "[(''a'', ''0.1.0''), (''d'', ''4.0.0'')]"
        "[(''a'', DepInfo (Some ''^1.0.0'') (Some [(''a'', DepInfo (Some ''>=2.0.0'') None)])),
          (''c'', DepInfo None None)]" "''a''" "[]",
      THEN conjunct2, THEN conjunct2, THEN conjunct1, THEN mp, OF n]
  show ?thesis unfolding th by (simp add: range_operators_def)
qed

text \<open>
  Claim C4. An entry of the flattened schema is passed over unless its path starts with
  \<open>node_modules/\<close> and the rest of the path holds no nested \<open>/node_modules/\<close>;
  an entry without a version is passed over as well. An accepted entry is stored under
  the rest of the path, with its version cleaned of leading range operators.
\<close>

theorem top_level_lock_entries:
  "(\<not> startsWith packagePath ''node_modules/'' \<or>
      includes_str (drop 13 packagePath) ''/node_modules/'' \<longrightarrow>
      collect_package_entry (packagePath, info) packages = packages) \<and>
   (entry_version info = None \<or> entry_version info = Some [] \<longrightarrow>
      collect_package_entry (packagePath, info) packages = packages) \<and>
   (entry_version info = Some v \<and> v \<noteq> [] \<and> \<not> includes_str name ''/node_modules/'' \<longrightarrow>
      collect_package_entry (''node_modules/'' @ name, info) packages =
        set_prop packages name (strip_range_operators v)) \<and>
   startsWith packagePath ''node_modules/'' = (\<exists>rest. packagePath = ''node_modules/'' @ rest) \<and>
   includes_str name ''/node_modules/'' =
     (\<exists>outer inner. name = outer @ ''/node_modules/'' @ inner)"
proof (intro conjI impI)
  show "startsWith packagePath ''node_modules/'' = (\<exists>rest. packagePath = ''node_modules/'' @ rest)"
    by (rule startsWith_iff)
  show "includes_str name ''/node_modules/'' =
     (\<exists>outer inner. name = outer @ ''/node_modules/'' @ inner)"
    by (rule includes_str_iff)
next
  assume h: "\<not> startsWith packagePath ''node_modules/'' \<or>
      includes_str (drop 13 packagePath) ''/node_modules/''"
  show "collect_package_entry (packagePath, info) packages = packages"
  proof (cases "startsWith packagePath ''node_modules/''")
    case False
    then show ?thesis by (simp add: collect_package_entry_def)
  next
    case True
    then obtain rest where r: "packagePath = ''node_modules/'' @ rest"
      unfolding startsWith_iff ..
    have rm: "remove_first packagePath ''node_modules/'' = rest"
      unfolding r by (rule remove_first_prefix) simp
    have dr: "drop 13 packagePath = rest" unfolding r by simp
    from h True have "includes_str rest ''/node_modules/''" by (simp add: dr)
    with True rm show ?thesis
      by (simp add: collect_package_entry_def Let_def split: option.splits)
  qed
next
  assume "entry_version info = None \<or> entry_version info = Some []"
  then show "collect_package_entry (packagePath, info) packages = packages"
    by (auto simp: collect_package_entry_def Let_def)
next
  assume h: "entry_version info = Some v \<and> v \<noteq> [] \<and> \<not> includes_str name ''/node_modules/''"
  have sw: "startsWith (''node_modules/'' @ name) ''node_modules/''"
    unfolding startsWith_iff by (intro exI) (rule refl)
  have rm: "remove_first (''node_modules/'' @ name) ''node_modules/'' = name"
    by (rule remove_first_prefix) simp
  from h sw rm
  show "collect_package_entry (''node_modules/'' @ name, info) packages =
      set_prop packages name (strip_range_operators v)"
    by (simp add: collect_package_entry_def Let_def)
qed

theorem top_level_lock_entries_witness:
  "collect_package_entry (''node_modules/react/node_modules/lodash'', LockEntry (Some ''3.10.1''))
     [(''lodash'', ''4.17.21'')] = [(''lodash'', ''4.17.21'')] \<and>
   collect_package_entry ('''', LockEntry (Some ''1.0.0'')) [] = [] \<and>
   collect_package_entry (''node_modules/react'', LockEntry None) [] = [] \<and>
   collect_package_entry (''node_modules/'' @ ''@types/node'', LockEntry (Some ''^16.0.0'')) [] =
     [(''@types/node'', ''16.0.0'')]"
proof -
  have h1: "\<not> startsWith ''node_modules/react/node_modules/lodash'' ''node_modules/'' \<or>
      includes_str (drop 13 ''node_modules/react/node_modules/lodash'') ''/node_modules/''"
    by (simp add: startsWith_def)
  have h2: "\<not> startsWith '''' ''node_modules/'' \<or>
      includes_str (drop 13 '''') ''/node_modules/''"
    by (simp add: startsWith_def)
  have h3: "entry_version (LockEntry None) = None \<or> entry_version (LockEntry None) = Some []"
    by simp
  have h4: "entry_version (LockEntry (Some ''^16.0.0'')) = Some ''^16.0.0'' \<and> ''^16.0.0'' \<noteq> [] \<and>
      \<not> includes_str ''@types/node'' ''/node_modules/''"
    by (simp add: startsWith_def)
  note a = top_level_lock_entries [THEN conjunct1, THEN mp, OF h1]
  note b = top_level_lock_entries [THEN conjunct1, THEN mp, OF h2]
  note c = top_level_lock_entries [THEN conjunct2, THEN conjunct1, THEN mp, OF h3]
  note d = top_level_lock_entries [THEN conjunct2, THEN conjunct2, THEN conjunct1, THEN mp, OF h4]
  have e: "set_prop [] ''@types/node'' (strip_range_operators ''^16.0.0'') =
      [(''@types/node'', ''16.0.0'')]"
    by (simp add: set_prop_def range_operators_def)
  show ?thesis unfolding a b c d e by simp
qed

subsection \<open>The manifest loader\<close>

lemma collect_package_entry_as_assignments:
  "collect_package_entry e packages = object_assign packages (top_level_assignments [e])"
proof -
  obtain packagePath v where e: "e = (packagePath, LockEntry v)"
    by (cases e) (metis lock_entry.exhaust)
  show ?thesis
  proof (cases "startsWith packagePath ''node_modules/''")
    case False
    have len: "length ''node_modules/'' = 13" by simp
    from False have "take 13 packagePath \<noteq> ''node_modules/''"
      by (simp only: startsWith_def len simp_thms)
    with False show ?thesis
      unfolding e
      by (simp add: collect_package_entry_def object_assign_Nil split: option.splits)
  next
    case True
    then obtain rest where r: "packagePath = ''node_modules/'' @ rest"
      unfolding startsWith_iff ..
    have rm: "remove_first packagePath ''node_modules/'' = rest"
      unfolding r by (rule remove_first_prefix) simp
    have dr: "drop 13 packagePath = rest" and tk: "take 13 packagePath = ''node_modules/''"
      unfolding r by simp_all
    from True show ?thesis
      unfolding e
      by (simp add: collect_package_entry_def Let_def rm dr tk object_assign_Nil
          object_assign_Cons split: option.splits)
  qed
qed

lemma top_level_assignments_Cons:
  "top_level_assignments (e # es) = top_level_assignments [e] @ top_level_assignments es"
proof -
  obtain packagePath v where e: "e = (packagePath, LockEntry v)"
    by (cases e) (metis lock_entry.exhaust)
  show ?thesis unfolding e by simp
qed

lemma fold_collect_package_entry:
  "fold collect_package_entry es packages = object_assign packages (top_level_assignments es)"
proof (induction es arbitrary: packages)
  case Nil
  then show ?case by (simp add: object_assign_Nil)
next
  case (Cons e es)
  have "fold collect_package_entry (e # es) packages =
      fold collect_package_entry es (collect_package_entry e packages)"
    by simp
  also have "\<dots> = object_assign (object_assign packages (top_level_assignments [e]))
      (top_level_assignments es)"
    by (simp only: Cons.IH collect_package_entry_as_assignments)
  also have "\<dots> = object_assign packages (top_level_assignments (e # es))"
    by (simp only: top_level_assignments_Cons [of e es] object_assign_append)
  finally show ?case .
qed

lemma load_lock_as_assignments:
  "load_lock packageLock packages = object_assign packages (lock_assignments packageLock)"
  by (simp add: load_lock_def lock_assignments_def Let_def collect_as_assignments(2)
      fold_collect_package_entry object_assign_append object_assign_Nil split: option.splits)

lemma load_manifest_as_assignments:
  "load_manifest packageJson = object_assign [] (manifest_assignments packageJson)"
  by (simp add: load_manifest_def manifest_assignments_def object_assign_append
      object_assign_Nil split: option.splits)

lemma map_of_manifest:
  "name \<noteq> ''__proto__'' \<Longrightarrow>
   map_of (object_assign [] (manifest_assignments packageJson)) name =
     map_of (rev (manifest_assignments packageJson)) name"
  by (simp add: map_of_object_assign split: option.splits)

lemma check_packages_matches:
  "fst (check_packages projectPackages packageList) =
     List.map_filter (match_of projectPackages) packageList"
proof (induction packageList)
  case Nil
  then show ?case by (simp add: List.map_filter_simps)
next
  case (Cons e es)
  then show ?case
    by (cases "get_prop projectPackages (packageName e)")
      (auto simp: List.map_filter_simps match_of_def Let_def split: prod.splits)
qed

lemma example_load_manifest:
  "load_manifest example_manifest =
     [(''lodash'', ''^4.17.20''), (''react'', ''18.2.0''), (''typescript'', ''~5.0.0'')]"
  by (simp add: load_manifest_def example_manifest_def object_assign_def set_prop_def)

lemma example_load_lock:
  "load_lock example_lock [] =
     [(''lodash'', ''4.17.21''), (''js-tokens'', ''4.0.0''), (''react'', ''18.3.1'')]"
  by (simp add: load_lock_def example_lock_def Let_def set_prop_def range_operators_def
      collect_package_entry_def startsWith_def)

text \<open>
  Claim C8. With a manifest and a lockfile present, the map is built by assigning the
  manifest's entries first (dependencies, then devDependencies, then peerDependencies)
  and the lockfile's entries afterwards (the nested schema, then the top-level entries
  of the flattened schema). Looking a name up therefore gives the last value the
  lockfile assigns to it, and the manifest's value only when the lockfile assigns none:
  on a collision the lockfile's value has overwritten the manifest's.
\<close>

theorem lockfile_overrides_manifest:
  assumes "manifest_file fs (path_join fs projectPath ''package.json'') = Content packageJson"
    and "lock_file fs (path_join fs projectPath ''package-lock.json'') = Content packageLock"
  shows "loadProjectPackages fs projectPath =
       Inr (load_lock packageLock (load_manifest packageJson), [Log MsgLockLoaded]) \<and>
     load_manifest packageJson = object_assign [] (manifest_assignments packageJson) \<and>
     load_lock packageLock packages = object_assign packages (lock_assignments packageLock) \<and>
     (name \<noteq> ''__proto__'' \<longrightarrow>
        map_of (load_lock packageLock (load_manifest packageJson)) name =
          (case map_of (rev (lock_assignments packageLock)) name of
             None \<Rightarrow> map_of (rev (manifest_assignments packageJson)) name
           | Some v \<Rightarrow> Some v))"
proof (intro conjI impI)
  show "loadProjectPackages fs projectPath =
       Inr (load_lock packageLock (load_manifest packageJson), [Log MsgLockLoaded])"
    using assms by (simp add: loadProjectPackages_def Let_def)
  show "load_manifest packageJson = object_assign [] (manifest_assignments packageJson)"
    by (rule load_manifest_as_assignments)
  show "load_lock packageLock packages = object_assign packages (lock_assignments packageLock)"
    by (rule load_lock_as_assignments)
next
  assume n: "name \<noteq> ''__proto__''"
  then show "map_of (load_lock packageLock (load_manifest packageJson)) name =
      (case map_of (rev (lock_assignments packageLock)) name of
         None \<Rightarrow> map_of (rev (manifest_assignments packageJson)) name
       | Some v \<Rightarrow> Some v)"
    by (simp add: load_lock_as_assignments load_manifest_as_assignments map_of_object_assign
        split: option.splits)
qed

theorem lockfile_overrides_manifest_witness:
  "loadProjectPackages
     (example_fs Missing (Content example_manifest) (Content example_lock)) ''proj'' =
     Inr ([(''lodash'', ''4.17.21''), (''react'', ''18.3.1''), (''typescript'', ''~5.0.0''),
           (''js-tokens'', ''4.0.0'')], [Log MsgLockLoaded]) \<and>
   map_of (rev (manifest_assignments example_manifest)) ''react'' = Some ''18.2.0'' \<and>
   map_of (load_lock example_lock (load_manifest example_manifest)) ''react'' = Some ''18.3.1'' \<and>
   map_of (rev (manifest_assignments example_manifest)) ''lodash'' = Some ''^4.17.20'' \<and>
   map_of (load_lock example_lock (load_manifest example_manifest)) ''lodash'' = Some ''4.17.21'' \<and>
   map_of (load_lock example_lock (load_manifest example_manifest)) ''typescript'' = Some ''~5.0.0''"
proof -
  let ?fs = "example_fs Missing (Content example_manifest) (Content example_lock)"
  have m: "manifest_file ?fs (path_join ?fs ''proj'' ''package.json'') = Content example_manifest"
    by (simp add: example_fs_def)
  have l: "lock_file ?fs (path_join ?fs ''proj'' ''package-lock.json'') = Content example_lock"
    by (simp add: example_fs_def)
  note th = lockfile_overrides_manifest [OF m l]
  note t1 = th [THEN conjunct1]
  note t2 = th [THEN conjunct2, THEN conjunct1]
  note t3 = th [of "load_manifest example_manifest", THEN conjunct2, THEN conjunct2, THEN conjunct1]
  have ev: "object_assign (object_assign [] (manifest_assignments example_manifest))
      (lock_assignments example_lock) =
      [(''lodash'', ''4.17.21''), (''react'', ''18.3.1''), (''typescript'', ''~5.0.0''),
       (''js-tokens'', ''4.0.0'')]"
    by code_simp
  have a: "loadProjectPackages ?fs ''proj'' =
     Inr ([(''lodash'', ''4.17.21''), (''react'', ''18.3.1''), (''typescript'', ''~5.0.0''),
           (''js-tokens'', ''4.0.0'')], [Log MsgLockLoaded])"
    using t1 t2 t3 ev by simp
  have n1: "''react'' \<noteq> ''__proto__''" by simp
  have n2: "''lodash'' \<noteq> ''__proto__''" by simp
  have n3: "''typescript'' \<noteq> ''__proto__''" by simp
  note k1 = th [THEN conjunct2, THEN conjunct2, THEN conjunct2, THEN mp, OF n1]
  note k2 = th [THEN conjunct2, THEN conjunct2, THEN conjunct2, THEN mp, OF n2]
  note k3 = th [THEN conjunct2, THEN conjunct2, THEN conjunct2, THEN mp, OF n3]
  have e1: "(case map_of (rev (lock_assignments example_lock)) ''react'' of
       None \<Rightarrow> map_of (rev (manifest_assignments example_manifest)) ''react''
     | Some v \<Rightarrow> Some v) = Some ''18.3.1''"
    by code_simp
  have e2: "(case map_of (rev (lock_assignments example_lock)) ''lodash'' of
       None \<Rightarrow> map_of (rev (manifest_assignments example_manifest)) ''lodash''
     | Some v \<Rightarrow> Some v) = Some ''4.17.21''"
    by code_simp
  have e3: "(case map_of (rev (lock_assignments example_lock)) ''typescript'' of
       None \<Rightarrow> map_of (rev (manifest_assignments example_manifest)) ''typescript''
     | Some v \<Rightarrow> Some v) = Some ''~5.0.0''"
    by code_simp
  have m1: "map_of (rev (manifest_assignments example_manifest)) ''react'' = Some ''18.2.0''"
    by code_simp
  have m2: "map_of (rev (manifest_assignments example_manifest)) ''lodash'' = Some ''^4.17.20''"
    by code_simp
  from a m1 k1 [unfolded e1] m2 k2 [unfolded e2] k3 [unfolded e3]
  show ?thesis by (intro conjI)
qed

lemma main_manifest_missing:
  assumes "2 \<le> length args"
    and "manifest_file fs (path_join fs (args ! 1) ''package.json'') = Missing"
  shows "exit_code (main fs args) = 1 \<and> written (main fs args) = [] \<and>
     (\<forall>packageList. loadPackageList fs (args ! 0) = Inr packageList \<longrightarrow>
        last (console (main fs args)) =
          Error (MsgFailure (ManifestNotFound (path_join fs (args ! 1) ''package.json''))))"
proof -
  have lp: "loadProjectPackages fs (args ! 1) =
      Inl (ManifestNotFound (path_join fs (args ! 1) ''package.json''))"
    using assms(2) by (simp add: loadProjectPackages_def Let_def)
  have len: "\<not> length args < 2" using assms(1) by simp
  show ?thesis
  proof (cases "loadPackageList fs (args ! 0)")
    case (Inl e)
    then show ?thesis using len by (simp add: main_def Let_def)
  next
    case (Inr packageList)
    then show ?thesis using len lp by (simp add: main_def Let_def)
  qed
qed

lemma match_of_own:
  assumes "map_of projectPackages (packageName listPackage) = Some v" and "v \<noteq> []"
  shows "match_of projectPackages listPackage =
     Some \<lparr>result_packageName = packageName listPackage, result_version = JString v,
           requiredVersion = version listPackage,
           isLowerOrEqual = fst (isVersionLowerOrEqual (JString v) (version listPackage))\<rparr>"
  using assms by (simp add: match_of_def get_prop_def)

lemma main_lock_missing_report:
  assumes "2 \<le> length args"
    and "manifest_file fs (path_join fs (args ! 1) ''package.json'') = Content packageJson"
    and "lock_file fs (path_join fs (args ! 1) ''package-lock.json'') = Missing"
    and "loadPackageList fs (args ! 0) = Inr packageList"
    and "\<forall>p. writable fs p"
  shows "exit_code (main fs args) = 0 \<and>
     written (main fs args) =
       report (if 2 < length args \<and> args ! 2 \<noteq> [] then args ! 2 else ''result.csv'')
         (List.map_filter (match_of (load_manifest packageJson)) packageList)"
proof -
  have lp: "loadProjectPackages fs (args ! 1) = Inr (load_manifest packageJson, [Log MsgLockMissing])"
    using assms(2,3) by (simp add: loadProjectPackages_def Let_def)
  have len: "\<not> length args < 2" using assms(1) by simp
  obtain results printed where
    cp: "check_packages (load_manifest packageJson) packageList = (results, printed)"
    by (cases "check_packages (load_manifest packageJson) packageList")
  have res: "results = List.map_filter (match_of (load_manifest packageJson)) packageList"
    using check_packages_matches [of "load_manifest packageJson" packageList] cp by simp
  show ?thesis
    using len lp cp assms(4,5) unfolding res [symmetric]
    by (simp add: main_def Let_def writeResultsToCSV_def report_def)
qed

text \<open>
  Claim C7. A missing manifest makes \<^verbatim>\<open>loadProjectPackages\<close> throw an error that
  carries the path of the manifest, and the run ends with exit code 1 without writing a
  file. A missing lockfile is not an error: the loader prints one informational line
  and returns the map of the manifest's own entries, in which a name has the version the
  manifest declares for it; the run goes on, joins the watch-list against that map (a
  watch entry found there gives a record with the declared version), writes the report
  of those records and ends with exit code 0.
\<close>

theorem manifest_required_lockfile_optional:
  "(manifest_file fs (path_join fs projectPath ''package.json'') = Missing \<longrightarrow>
      loadProjectPackages fs projectPath =
        Inl (ManifestNotFound (path_join fs projectPath ''package.json'')) \<and>
      (2 \<le> length args \<and> args ! 1 = projectPath \<longrightarrow>
         exit_code (main fs args) = 1 \<and> written (main fs args) = [] \<and>
         (\<forall>packageList. loadPackageList fs (args ! 0) = Inr packageList \<longrightarrow>
            last (console (main fs args)) =
              Error (MsgFailure (ManifestNotFound (path_join fs projectPath ''package.json'')))))) \<and>
   (manifest_file fs (path_join fs projectPath ''package.json'') = Content packageJson \<and>
    lock_file fs (path_join fs projectPath ''package-lock.json'') = Missing \<longrightarrow>
      loadProjectPackages fs projectPath = Inr (load_manifest packageJson, [Log MsgLockMissing]) \<and>
      load_manifest packageJson = object_assign [] (manifest_assignments packageJson) \<and>
      (name \<noteq> ''__proto__'' \<longrightarrow>
         map_of (load_manifest packageJson) name =
           map_of (rev (manifest_assignments packageJson)) name) \<and>
      (map_of (load_manifest packageJson) (packageName listPackage) = Some v \<and> v \<noteq> [] \<longrightarrow>
         match_of (load_manifest packageJson) listPackage =
           Some \<lparr>result_packageName = packageName listPackage, result_version = JString v,
                 requiredVersion = version listPackage,
                 isLowerOrEqual = fst (isVersionLowerOrEqual (JString v) (version listPackage))\<rparr>) \<and>
      (2 \<le> length args \<and> args ! 1 = projectPath \<and>
       loadPackageList fs (args ! 0) = Inr packageList \<and> (\<forall>p. writable fs p) \<longrightarrow>
         exit_code (main fs args) = 0 \<and>
         written (main fs args) =
           report (if 2 < length args \<and> args ! 2 \<noteq> [] then args ! 2 else ''result.csv'')
             (List.map_filter (match_of (load_manifest packageJson)) packageList)))"
proof (intro conjI impI)
  assume m: "manifest_file fs (path_join fs projectPath ''package.json'') = Missing"
  then show "loadProjectPackages fs projectPath =
      Inl (ManifestNotFound (path_join fs projectPath ''package.json''))"
    by (simp add: loadProjectPackages_def Let_def)
  assume a: "2 \<le> length args \<and> args ! 1 = projectPath"
  with m have "manifest_file fs (path_join fs (args ! 1) ''package.json'') = Missing" by simp
  with a have r: "exit_code (main fs args) = 1 \<and> written (main fs args) = [] \<and>
     (\<forall>packageList. loadPackageList fs (args ! 0) = Inr packageList \<longrightarrow>
        last (console (main fs args)) =
          Error (MsgFailure (ManifestNotFound (path_join fs (args ! 1) ''package.json''))))"
    by (intro main_manifest_missing) simp_all
  from r show "exit_code (main fs args) = 1" by simp
  from r show "written (main fs args) = []" by simp
  from r a show "\<forall>packageList. loadPackageList fs (args ! 0) = Inr packageList \<longrightarrow>
      last (console (main fs args)) =
        Error (MsgFailure (ManifestNotFound (path_join fs projectPath ''package.json'')))"
    by simp
next
  assume c: "manifest_file fs (path_join fs projectPath ''package.json'') = Content packageJson \<and>
    lock_file fs (path_join fs projectPath ''package-lock.json'') = Missing"
  then show "loadProjectPackages fs projectPath =
      Inr (load_manifest packageJson, [Log MsgLockMissing])"
    by (simp add: loadProjectPackages_def Let_def)
  show "load_manifest packageJson = object_assign [] (manifest_assignments packageJson)"
    by (rule load_manifest_as_assignments)
  {
    assume "name \<noteq> ''__proto__''"
    then show "map_of (load_manifest packageJson) name =
        map_of (rev (manifest_assignments packageJson)) name"
      by (simp add: load_manifest_as_assignments map_of_manifest)
  }
  {
    assume "map_of (load_manifest packageJson) (packageName listPackage) = Some v \<and> v \<noteq> []"
    then show "match_of (load_manifest packageJson) listPackage =
        Some \<lparr>result_packageName = packageName listPackage, result_version = JString v,
              requiredVersion = version listPackage,
              isLowerOrEqual = fst (isVersionLowerOrEqual (JString v) (version listPackage))\<rparr>"
      by (intro match_of_own) simp_all
  }
  assume a: "2 \<le> length args \<and> args ! 1 = projectPath \<and>
       loadPackageList fs (args ! 0) = Inr packageList \<and> (\<forall>p. writable fs p)"
  with c have r: "exit_code (main fs args) = 0 \<and>
     written (main fs args) =
       report (if 2 < length args \<and> args ! 2 \<noteq> [] then args ! 2 else ''result.csv'')
         (List.map_filter (match_of (load_manifest packageJson)) packageList)"
    by (intro main_lock_missing_report) simp_all
  from r show "exit_code (main fs args) = 0" by simp
  from r show "written (main fs args) =
       report (if 2 < length args \<and> args ! 2 \<noteq> [] then args ! 2 else ''result.csv'')
         (List.map_filter (match_of (load_manifest packageJson)) packageList)"
    by simp
qed

theorem manifest_required_lockfile_optional_witness:
  "loadProjectPackages (example_fs (Content ''react'') Missing Missing) ''proj'' =
     Inl (ManifestNotFound ''proj/package.json'') \<and>
   exit_code (main (example_fs (Content ''react'') Missing Missing) [''packages.txt'', ''proj'']) = 1 \<and>
   written (main (example_fs (Content ''react'') Missing Missing) [''packages.txt'', ''proj'']) = [] \<and>
   loadProjectPackages (example_fs (Content ''react'') (Content example_manifest) Missing) ''proj'' =
     Inr ([(''lodash'', ''^4.17.20''), (''react'', ''18.2.0''), (''typescript'', ''~5.0.0'')],
          [Log MsgLockMissing]) \<and>
   map_of (load_manifest example_manifest) ''react'' = Some ''18.2.0'' \<and>
   match_of (load_manifest example_manifest) \<lparr>packageName = ''react'', version = None\<rparr> =
     Some \<lparr>result_packageName = ''react'', result_version = JString ''18.2.0'',
           requiredVersion = None, isLowerOrEqual = False\<rparr> \<and>
   exit_code (main (example_fs (Content ''react'') (Content example_manifest) Missing)
     [''packages.txt'', ''proj'']) = 0 \<and>
   written (main (example_fs (Content ''react'') (Content example_manifest) Missing)
     [''packages.txt'', ''proj'']) =
     [(''result.csv'', csv_header @ [CHR 0x0A] @ ''react,18.2.0,'')]"
proof -
  let ?fs1 = "example_fs (Content ''react'') Missing Missing"
  let ?fs2 = "example_fs (Content ''react'') (Content example_manifest) Missing"
  let ?args = "[''packages.txt'', ''proj'']"
  let ?react = "\<lparr>packageName = ''react'', version = None\<rparr>"
  have p1: "path_join ?fs1 ''proj'' ''package.json'' = ''proj/package.json''"
    by (simp add: example_fs_def)
  have m1: "manifest_file ?fs1 (path_join ?fs1 ''proj'' ''package.json'') = Missing"
    by (simp add: example_fs_def)
  have a1: "2 \<le> length ?args \<and> ?args ! 1 = ''proj''" by simp
  have m2: "manifest_file ?fs2 (path_join ?fs2 ''proj'' ''package.json'') = Content example_manifest \<and>
      lock_file ?fs2 (path_join ?fs2 ''proj'' ''package-lock.json'') = Missing"
    by (simp add: example_fs_def)
  have pl: "parse_lines (split_on CHR 0x0A ''react'') = [?react]" by code_simp
  have a2: "2 \<le> length ?args \<and> ?args ! 1 = ''proj'' \<and>
      loadPackageList ?fs2 (?args ! 0) = Inr [?react] \<and> (\<forall>p. writable ?fs2 p)"
    by (simp add: loadPackageList_def example_fs_def pl del: split_on.simps parse_lines.simps)
  note t1 = manifest_required_lockfile_optional [THEN conjunct1, THEN mp, OF m1]
  note t2 = manifest_required_lockfile_optional [THEN conjunct2, THEN mp, OF m2]
  note a = t1 [THEN conjunct1]
  note b = t1 [THEN conjunct2, THEN mp, OF a1, THEN conjunct1]
  note c = t1 [THEN conjunct2, THEN mp, OF a1, THEN conjunct2, THEN conjunct1]
  note d = t2 [THEN conjunct1]
  note d2 = t2 [THEN conjunct2, THEN conjunct1]
  have n: "''react'' \<noteq> ''__proto__''" by simp
  note e = t2 [THEN conjunct2, THEN conjunct2, THEN conjunct1, THEN mp, OF n]
  have ev1: "object_assign [] (manifest_assignments example_manifest) =
      [(''lodash'', ''^4.17.20''), (''react'', ''18.2.0''), (''typescript'', ''~5.0.0'')]"
    by code_simp
  have ev2: "map_of (rev (manifest_assignments example_manifest)) ''react'' = Some ''18.2.0''"
    by code_simp
  have d': "loadProjectPackages ?fs2 ''proj'' =
     Inr ([(''lodash'', ''^4.17.20''), (''react'', ''18.2.0''), (''typescript'', ''~5.0.0'')],
          [Log MsgLockMissing])"
    using d d2 ev1 by simp
  have e': "map_of (load_manifest example_manifest) ''react'' = Some ''18.2.0''"
    using e ev2 by simp
  have h: "map_of (load_manifest example_manifest) (packageName ?react) = Some ''18.2.0'' \<and>
      ''18.2.0'' \<noteq> []"
    using e' by simp
  note f = t2 [THEN conjunct2, THEN conjunct2, THEN conjunct2, THEN conjunct1, THEN mp, OF h]
  have f': "match_of (load_manifest example_manifest) ?react =
     Some \<lparr>result_packageName = ''react'', result_version = JString ''18.2.0'',
           requiredVersion = None, isLowerOrEqual = False\<rparr>"
    using f by (simp add: isVersionLowerOrEqual_def)
  note g = t2 [THEN conjunct2, THEN conjunct2, THEN conjunct2, THEN conjunct2, THEN mp, OF a2]
  have g1: "exit_code (main ?fs2 ?args) = 0" using g by (rule conjunct1)
  have ev3: "report ''result.csv''
      [\<lparr>result_packageName = ''react'', result_version = JString ''18.2.0'',
         requiredVersion = None, isLowerOrEqual = False\<rparr>] =
      [(''result.csv'', csv_header @ [CHR 0x0A] @ ''react,18.2.0,'')]"
    by (simp add: report_def csv_line_def)
  have g2: "written (main ?fs2 ?args) =
      [(''result.csv'', csv_header @ [CHR 0x0A] @ ''react,18.2.0,'')]"
    using g [THEN conjunct2] f' ev3 by (simp add: List.map_filter_simps)
  from a b c d' e' f' g1 g2 show ?thesis unfolding p1 by (intro conjI)
qed

subsection \<open>The version comparator\<close>

lemma str_less_irrefl: "\<not> str_less a a"
  by (induction a) simp_all

lemma identifier_less_irrefl: "\<not> identifier_less a a"
  by (cases a) (simp_all add: str_less_irrefl)

lemma compareIdentifiers_le:
  "a \<noteq> b \<Longrightarrow> (compareIdentifiers a b \<le> 0) = identifier_less a b"
  by (cases a; cases b) (auto simp: compare_nat_def)

lemma compare_identifier_lists_le:
  "(compare_identifier_lists as bs \<le> 0) = identifiers_le as bs"
proof (induction as bs rule: compare_identifier_lists.induct)
  case (4 a as b bs)
  show ?case
  proof (cases "a = b")
    case True
    with 4 show ?thesis by (simp add: identifier_less_irrefl)
  next
    case False
    then show ?thesis by (simp add: compareIdentifiers_le)
  qed
qed simp_all

lemma comparePre_le: "(comparePre a b \<le> 0) = prerelease_le (prerelease a) (prerelease b)"
  by (simp add: comparePre_def prerelease_le_def compare_identifier_lists_le)

lemma compareMain_cases:
  "compareMain a b =
     (if major a < major b then - 1 else if major b < major a then 1
      else if minor a < minor b then - 1 else if minor b < minor a then 1
      else if patch a < patch b then - 1 else if patch b < patch a then 1 else 0)"
  by (simp add: compareMain_def compare_nat_def)

lemma semver_lte_precedence: "semver_lte a b = precedence_le a b"
  using comparePre_le [of a b]
  by (auto simp: semver_lte_def semver_compare_def compareMain_cases precedence_le_def)

text \<open>
  Claim C1, as amended. With a requested version present, both values go through the
  package's cleaning. When either comes back null, that is, does not normalize to a
  valid semantic version, the comparator answers false, throws nothing and prints
  nothing. The comparison warning is printed only when a call into the package throws
  (cleaning an installed value that is not a string), and the answer is false then as
  well. For an installed string nothing is ever printed.
\<close>

theorem unparsable_version_not_stale:
  "(requested \<noteq> [] \<and>
    (semver_clean installed = Inr None \<or>
     (semver_clean installed = Inr cleaned \<and> semver_clean (JString requested) = Inr None)) \<longrightarrow>
      isVersionLowerOrEqual installed (Some requested) = (False, [])) \<and>
   (requested \<noteq> [] \<and> semver_clean installed = Inl e \<longrightarrow>
      isVersionLowerOrEqual installed (Some requested) =
        (False, [Warn (MsgCompareError installed requested)])) \<and>
   snd (isVersionLowerOrEqual (JString s) required) = []"
proof (intro conjI impI)
  assume h: "requested \<noteq> [] \<and>
    (semver_clean installed = Inr None \<or>
     (semver_clean installed = Inr cleaned \<and> semver_clean (JString requested) = Inr None))"
  then have r: "requested \<noteq> []" by simp
  from h consider "semver_clean installed = Inr None"
    | "semver_clean installed = Inr cleaned" "semver_clean (JString requested) = Inr None"
    by auto
  then show "isVersionLowerOrEqual installed (Some requested) = (False, [])"
  proof cases
    case 1
    with r show ?thesis
      unfolding isVersionLowerOrEqual_def by (simp split: option.splits)
  next
    case 2
    with r show ?thesis
      unfolding isVersionLowerOrEqual_def by (simp split: option.splits)
  qed
next
  assume "requested \<noteq> [] \<and> semver_clean installed = Inl e"
  then show "isVersionLowerOrEqual installed (Some requested) =
      (False, [Warn (MsgCompareError installed requested)])"
    unfolding isVersionLowerOrEqual_def by simp
next
  show "snd (isVersionLowerOrEqual (JString s) required) = []"
    unfolding isVersionLowerOrEqual_def by (simp split: option.splits)
qed

theorem unparsable_version_not_stale_witness:
  "isVersionLowerOrEqual (JString ''latest'') (Some ''1.0.0'') = (False, []) \<and>
   isVersionLowerOrEqual (JString ''1.0.0'') (Some ''1.x'') = (False, []) \<and>
   isVersionLowerOrEqual (JProto ''constructor'') (Some ''1.0.0'') =
     (False, [Warn (MsgCompareError (JProto ''constructor'') ''1.0.0'')])"
proof -
  have c1: "semver_clean (JString ''latest'') = Inr None" by code_simp
  have c2: "semver_clean (JString ''1.0.0'') =
      Inr (Some \<lparr>major = 1, minor = 0, patch = 0, prerelease = []\<rparr>)"
    by code_simp
  have c3: "semver_clean (JString ''1.x'') = Inr None" by code_simp
  have h1: "''1.0.0'' \<noteq> [] \<and>
      (semver_clean (JString ''latest'') = Inr None \<or>
       (semver_clean (JString ''latest'') = Inr None \<and>
        semver_clean (JString ''1.0.0'') = Inr None))"
    using c1 by simp
  have h2: "''1.x'' \<noteq> [] \<and>
      (semver_clean (JString ''1.0.0'') = Inr None \<or>
       (semver_clean (JString ''1.0.0'') =
          Inr (Some \<lparr>major = 1, minor = 0, patch = 0, prerelease = []\<rparr>) \<and>
        semver_clean (JString ''1.x'') = Inr None))"
    using c2 c3 by simp
  have h3: "''1.0.0'' \<noteq> [] \<and> semver_clean (JProto ''constructor'') = Inl TypeError"
    by simp
  note a = unparsable_version_not_stale [THEN conjunct1, THEN mp, OF h1]
  note b = unparsable_version_not_stale [THEN conjunct1, THEN mp, OF h2]
  note c = unparsable_version_not_stale [THEN conjunct2, THEN conjunct1, THEN mp, OF h3]
  from a b c show ?thesis by (intro conjI)
qed

text \<open>
  Claim C1 as stated has the comparator print a warning when a version does not
  parse. It does not: the installed text \<open>not-a-version\<close> cleans to null, the answer
  is false, and the output is empty.
\<close>

theorem unparsable_version_no_warning_counterexample:
  "semver_clean (JString ''not-a-version'') = Inr None \<and>
   isVersionLowerOrEqual (JString ''not-a-version'') (Some ''1.0.0'') = (False, []) \<and>
   Warn (MsgCompareError (JString ''not-a-version'') ''1.0.0'') \<notin>
     set (snd (isVersionLowerOrEqual (JString ''not-a-version'') (Some ''1.0.0'')))"
proof -
  have a: "semver_clean (JString ''not-a-version'') = Inr None" by code_simp
  have b: "isVersionLowerOrEqual (JString ''not-a-version'') (Some ''1.0.0'') = (False, [])"
    by code_simp
  show ?thesis unfolding b using a by simp
qed

text \<open>
  Claim C2. With a requested version present and both versions cleaning to valid
  semantic versions, the comparator answers true exactly when the installed version
  precedes or equals the requested one in the order of the Semantic Versioning
  specification (major, then minor, then patch, then pre-release precedence), and it
  prints nothing. Equal versions count: \<open>1.0.0\<close> against \<open>1.0.0\<close> is true,
  \<open>2.0.0\<close> against \<open>1.9.9\<close> is false, \<open>1.0.0\<close> against \<open>1.0.1\<close> is true.
\<close>

theorem stale_iff_precedence_le:
  "(requested \<noteq> [] \<and> semver_clean (JString installed) = Inr (Some a) \<and>
    semver_clean (JString requested) = Inr (Some b) \<longrightarrow>
      isVersionLowerOrEqual (JString installed) (Some requested) = (precedence_le a b, [])) \<and>
   isVersionLowerOrEqual (JString ''1.0.0'') (Some ''1.0.0'') = (True, []) \<and>
   isVersionLowerOrEqual (JString ''2.0.0'') (Some ''1.9.9'') = (False, []) \<and>
   isVersionLowerOrEqual (JString ''1.0.0'') (Some ''1.0.1'') = (True, [])"
proof (intro conjI impI)
  assume "requested \<noteq> [] \<and> semver_clean (JString installed) = Inr (Some a) \<and>
    semver_clean (JString requested) = Inr (Some b)"
  then show "isVersionLowerOrEqual (JString installed) (Some requested) = (precedence_le a b, [])"
    unfolding isVersionLowerOrEqual_def by (simp add: semver_lte_precedence)
next
  show "isVersionLowerOrEqual (JString ''1.0.0'') (Some ''1.0.0'') = (True, [])" by code_simp
  show "isVersionLowerOrEqual (JString ''2.0.0'') (Some ''1.9.9'') = (False, [])" by code_simp
  show "isVersionLowerOrEqual (JString ''1.0.0'') (Some ''1.0.1'') = (True, [])" by code_simp
qed

theorem stale_iff_precedence_le_witness:
  "isVersionLowerOrEqual (JString ''4.17.20'') (Some '' =v4.17.21-rc.1 '') = (True, []) \<and>
   isVersionLowerOrEqual (JString ''4.17.21'') (Some ''4.17.21-rc.1'') = (False, [])"
proof -
  have c1: "semver_clean (JString ''4.17.20'') =
      Inr (Some \<lparr>major = 4, minor = 17, patch = 20, prerelease = []\<rparr>)"
    by code_simp
  have c2: "semver_clean (JString '' =v4.17.21-rc.1 '') =
      Inr (Some \<lparr>major = 4, minor = 17, patch = 21,
                  prerelease = [Alphanumeric ''rc'', Numeric 1]\<rparr>)"
    by code_simp
  have c3: "semver_clean (JString ''4.17.21'') =
      Inr (Some \<lparr>major = 4, minor = 17, patch = 21, prerelease = []\<rparr>)"
    by code_simp
  have c4: "semver_clean (JString ''4.17.21-rc.1'') =
      Inr (Some \<lparr>major = 4, minor = 17, patch = 21,
                  prerelease = [Alphanumeric ''rc'', Numeric 1]\<rparr>)"
    by code_simp
  have h1: "'' =v4.17.21-rc.1 '' \<noteq> [] \<and>
      semver_clean (JString ''4.17.20'') =
        Inr (Some \<lparr>major = 4, minor = 17, patch = 20, prerelease = []\<rparr>) \<and>
      semver_clean (JString '' =v4.17.21-rc.1 '') =
        Inr (Some \<lparr>major = 4, minor = 17, patch = 21,
                    prerelease = [Alphanumeric ''rc'', Numeric 1]\<rparr>)"
    using c1 c2 by simp
  have h2: "''4.17.21-rc.1'' \<noteq> [] \<and>
      semver_clean (JString ''4.17.21'') =
        Inr (Some \<lparr>major = 4, minor = 17, patch = 21, prerelease = []\<rparr>) \<and>
      semver_clean (JString ''4.17.21-rc.1'') =
        Inr (Some \<lparr>major = 4, minor = 17, patch = 21,
                    prerelease = [Alphanumeric ''rc'', Numeric 1]\<rparr>)"
    using c3 c4 by simp
  note a = stale_iff_precedence_le [THEN conjunct1, THEN mp, OF h1]
  note b = stale_iff_precedence_le [THEN conjunct1, THEN mp, OF h2]
  show ?thesis unfolding a b by (simp add: precedence_le_def prerelease_le_def)
qed

subsection \<open>The join and the report\<close>

text \<open>
  A watch entry whose name is neither a key of the map nor the name of a member of
  \<^verbatim>\<open>Object.prototype\<close> produces no record and prints nothing; an empty list of
  records writes no file and prints one informational line.
\<close>

lemma absent_entry_skipped:
  assumes "map_of projectPackages (packageName listPackage) = None"
    and "packageName listPackage \<notin> set object_prototype_members"
  shows "check_packages projectPackages (listPackage # rest) = check_packages projectPackages rest"
  using assms by (simp add: get_prop_def)

lemma empty_report_writes_nothing:
  "writeResultsToCSV fs [] outputPath = Inr ([], [Log MsgNoPackages])"
  by (simp add: writeResultsToCSV_def)

lemma main_no_matches:
  assumes "2 \<le> length args"
    and "loadPackageList fs (args ! 0) = Inr packageList"
    and "loadProjectPackages fs (args ! 1) = Inr (projectPackages, loading)"
    and "check_packages projectPackages packageList = ([], printed)"
  shows "exit_code (main fs args) = 0 \<and> written (main fs args) = [] \<and>
     console (main fs args) =
       [Log (MsgListPath (args ! 0)), Log (MsgProjectPath (args ! 1)),
        Log (MsgOutputPath (if 2 < length args \<and> args ! 2 \<noteq> [] then args ! 2 else ''result.csv'')),
        Log MsgBlank, Log (MsgListLoaded (length packageList))] @ loading @
       [Log (MsgProjectLoaded (length projectPackages))] @ printed @
       [Log MsgNoPackages, Log MsgBlank, Log (MsgDone 0)]"
proof -
  have len: "\<not> length args < 2" using assms(1) by simp
  show ?thesis
    using len assms(2,3,4)
    by (simp add: main_def Let_def writeResultsToCSV_def del: check_packages.simps)
qed

text \<open>
  Claim C9 at the watch entry \<open>constructor\<close>, for the sample manifest and no lockfile.
  The resolved map has no such key, yet reading it yields the constructor inherited
  from \<^verbatim>\<open>Object.prototype\<close>, which is truthy: the join produces a record for it and
  the run writes a report with that row and exits with code 0.
\<close>

theorem inherited_member_reported:
  "map_of (load_manifest example_manifest) ''constructor'' = None \<and>
   get_prop (load_manifest example_manifest) ''constructor'' = Some (JProto ''constructor'') \<and>
   check_packages (load_manifest example_manifest)
     [\<lparr>packageName = ''constructor'', version = None\<rparr>] =
     ([\<lparr>result_packageName = ''constructor'', result_version = JProto ''constructor'',
        requiredVersion = None, isLowerOrEqual = False\<rparr>],
      [Log (MsgDetected ''constructor'' (JProto ''constructor'') False)]) \<and>
   exit_code (main (example_fs (Content ''constructor'') (Content example_manifest) Missing)
     [''packages.txt'', ''proj'']) = 0 \<and>
   written (main (example_fs (Content ''constructor'') (Content example_manifest) Missing)
     [''packages.txt'', ''proj'']) =
     [(''result.csv'',
       csv_header @ [CHR 0x0A] @ ''constructor,function Object() { [native code] },'')]"
proof -
  have lm: "load_manifest example_manifest =
     [(''lodash'', ''^4.17.20''), (''react'', ''18.2.0''), (''typescript'', ''~5.0.0'')]"
    by (rule example_load_manifest)
  have a: "map_of (load_manifest example_manifest) ''constructor'' = None"
    unfolding lm by simp
  have b: "get_prop (load_manifest example_manifest) ''constructor'' = Some (JProto ''constructor'')"
    unfolding lm by (simp add: get_prop_def object_prototype_members_def)
  have c: "check_packages (load_manifest example_manifest)
     [\<lparr>packageName = ''constructor'', version = None\<rparr>] =
     ([\<lparr>result_packageName = ''constructor'', result_version = JProto ''constructor'',
        requiredVersion = None, isLowerOrEqual = False\<rparr>],
      [Log (MsgDetected ''constructor'' (JProto ''constructor'') False)])"
    by (simp add: b isVersionLowerOrEqual_def)
  let ?fs = "example_fs (Content ''constructor'') (Content example_manifest) Missing"
  have l: "loadPackageList ?fs ''packages.txt'' = Inr [\<lparr>packageName = ''constructor'', version = None\<rparr>]"
    by code_simp
  have p: "loadProjectPackages ?fs ''proj'' =
      Inr (load_manifest example_manifest, [Log MsgLockMissing])"
    by (simp add: loadProjectPackages_def example_fs_def Let_def)
  have w: "writable ?fs ''result.csv''" by (simp add: example_fs_def)
  have m: "main ?fs [''packages.txt'', ''proj''] =
      \<lparr>exit_code = 0,
       console = [Log (MsgListPath ''packages.txt''), Log (MsgProjectPath ''proj''),
                  Log (MsgOutputPath ''result.csv''), Log MsgBlank, Log (MsgListLoaded 1),
                  Log MsgLockMissing, Log (MsgProjectLoaded 3),
                  Log (MsgDetected ''constructor'' (JProto ''constructor'') False),
                  Log (MsgWritten ''result.csv''), Log MsgBlank, Log (MsgDone 1)],
       written = [(''result.csv'',
         csv_header @ [CHR 0x0A] @ ''constructor,function Object() { [native code] },'')]\<rparr>"
    unfolding main_def
    by (simp add: l p c [unfolded lm] w Let_def writeResultsToCSV_def csv_line_def lm
        del: check_packages.simps)
  show ?thesis unfolding m using a b c by simp
qed

end
